theory Spec2Isabelle
  imports Complex_Main
begin

section \<open>Numbers\<close>

text \<open>
  The program is TypeScript, and a JavaScript number is an IEEE 754 double. A finite
  double is modelled as the \<open>real\<close> it denotes. Every arithmetic operation of the two
  centroid routines returns the double nearest to the exact result, a tie going to the
  even significand; \<open>rnd\<close> is that rounding, with 53 significant bits, exponents from
  \<open>-1022\<close> to \<open>1023\<close> and gradual underflow (below \<open>2 powi (-1022)\<close> the doubles are
  \<open>2 powi (-1074)\<close> apart). Outside the model: NaN and the infinities (a result of
  magnitude \<open>2 powi 1024\<close> or more), and the sign of zero, which \<^verbatim>\<open>===\<close> does not
  see either. The remaining arithmetic of the program (times in milliseconds, the radius
  in metres, the rounding inside a cache key) is kept exact.
\<close>

text \<open>
  The binary exponent of a non-negative number, by halving or doubling it into
  \<open>[1, 2)\<close>: at most 1024 halvings, at most 1022 doublings, so that every number below
  \<open>2 powi (-1022)\<close> gets the exponent \<open>-1022\<close> of the smallest normal doubles.
\<close>

fun expo_up :: "nat \<Rightarrow> real \<Rightarrow> int" where
  "expo_up 0 x = 0"
| "expo_up (Suc n) x = (if x < 2 then 0 else expo_up n (x / 2) + 1)"

fun expo_down :: "nat \<Rightarrow> real \<Rightarrow> int" where
  "expo_down 0 x = 0"
| "expo_down (Suc n) x = (if 1 \<le> x then 0 else expo_down n (2 * x) - 1)"

definition expo :: "real \<Rightarrow> int" where
  "expo x = (if 1 \<le> x then expo_up 1024 x else expo_down 1022 x)"

text \<open>The distance between neighbouring doubles around \<open>x\<close>.\<close>

definition ulp :: "real \<Rightarrow> real" where
  "ulp x = 2 powi (expo \<bar>x\<bar> - 52)"

text \<open>The nearest integer, a tie going to the even one.\<close>

definition round_even :: "real \<Rightarrow> int" where
  "round_even y =
     (let f = \<lfloor>y\<rfloor>; d = y - of_int f
      in if d < 1 / 2 then f else if 1 / 2 < d then f + 1 else if even f then f else f + 1)"

definition rnd :: "real \<Rightarrow> real" where
  "rnd x = of_int (round_even (x / ulp x)) * ulp x"

text \<open>The four operations \<^verbatim>\<open>+\<close>, \<^verbatim>\<open>-\<close>, \<^verbatim>\<open>*\<close> and \<^verbatim>\<open>/\<close> on doubles.\<close>

definition fadd :: "real \<Rightarrow> real \<Rightarrow> real" where
  "fadd a b = rnd (a + b)"

definition fsub :: "real \<Rightarrow> real \<Rightarrow> real" where
  "fsub a b = rnd (a - b)"

definition fmul :: "real \<Rightarrow> real \<Rightarrow> real" where
  "fmul a b = rnd (a * b)"

definition fdiv :: "real \<Rightarrow> real \<Rightarrow> real" where
  "fdiv a b = rnd (a / b)"

section \<open>Data model\<close>

text \<open>
  A GeoJSON position is the pair of its first two numbers, which is all the code ever
  destructures.
\<close>

type_synonym position = "real \<times> real"

datatype geometry =
    Point position
  | MultiPoint "position list"
  | LineString "position list"
  | MultiLineString "position list list"
  | Polygon "position list list"
  | MultiPolygon "position list list list"
  | GeometryCollection "geometry list"

section \<open>Geometry utilities\<close>

subsection \<open>The shared loop body\<close>

text \<open>
  Both centroid implementations run the same three accumulator updates per edge:
  \<^verbatim>\<open>const cross = x1*y2 - x2*y1; a += cross; cx += (x1+x2)*cross; cy += (y1+y2)*cross;\<close>
\<close>

definition edge_step :: "position \<Rightarrow> position \<Rightarrow> real \<times> real \<times> real \<Rightarrow> real \<times> real \<times> real" where
  "edge_step p q acc =
     (case p of (x1, y1) \<Rightarrow> case q of (x2, y2) \<Rightarrow> case acc of (a, cx, cy) \<Rightarrow>
        let cross = fsub (fmul x1 y2) (fmul x2 y1)
        in (fadd a cross, fadd cx (fmul (fadd x1 x2) cross), fadd cy (fmul (fadd y1 y2) cross)))"

text \<open>
  \<^verbatim>\<open>pts.reduce(([ax, ay], [x, y]) => [ax + x, ay + y], [0, 0])\<close> followed by the
  division by the number of points.
\<close>

definition coord_sum :: "position list \<Rightarrow> position" where
  "coord_sum pts = foldl (\<lambda>(ax, ay) (x, y). (fadd ax x, fadd ay y)) (0, 0) pts"

definition average :: "position list \<Rightarrow> position" where
  "average pts =
     (case coord_sum pts of (sx, sy) \<Rightarrow> (fdiv sx (real (length pts)), fdiv sy (real (length pts))))"

subsection \<open>tripadvisor.ts: closeRing, ringCentroid, geometryCentroid\<close>

definition closeRing :: "position list \<Rightarrow> position list" where
  "closeRing ring =
     (if ring = [] then ring
      else if hd ring = last ring then ring
      else ring @ [hd ring])"

record ring_centroid =
  cx :: real
  cy :: real
  area :: real

text \<open>The loop \<^verbatim>\<open>for (let i = 0; i < r.length - 1; i++)\<close> over the closed ring.\<close>

definition closed_sums :: "position list \<Rightarrow> real \<times> real \<times> real" where
  "closed_sums r = fold (\<lambda>i. edge_step (r ! i) (r ! (i + 1))) [0 ..< length r - 1] (0, 0, 0)"

definition ringCentroid :: "position list \<Rightarrow> ring_centroid option" where
  "ringCentroid ring =
     (case closed_sums (closeRing ring) of (twiceArea, sx, sy) \<Rightarrow>
        if twiceArea = 0 then None
        else Some \<lparr>cx = fdiv sx (fmul 3 twiceArea), cy = fdiv sy (fmul 3 twiceArea),
                    area = fdiv twiceArea 2\<rparr>)"

text \<open>One iteration of the MultiPolygon loop of \<open>geometryCentroid\<close>.\<close>

definition multi_step :: "position list list \<Rightarrow> real \<times> real \<times> real \<Rightarrow> real \<times> real \<times> real" where
  "multi_step poly acc =
     (case acc of (sumCx, sumCy, sumA) \<Rightarrow>
        case poly of
          [] \<Rightarrow> acc
        | outer # _ \<Rightarrow>
            if outer = [] then acc
            else case ringCentroid outer of
                   None \<Rightarrow> acc
                 | Some rc \<Rightarrow>
                     (fadd sumCx (fmul (cx rc) \<bar>area rc\<bar>), fadd sumCy (fmul (cy rc) \<bar>area rc\<bar>),
                      fadd sumA \<bar>area rc\<bar>))"

fun geometryCentroid :: "geometry \<Rightarrow> position option" where
  "geometryCentroid (Point p) = Some p"
| "geometryCentroid (MultiPoint pts) = (if pts = [] then None else Some (average pts))"
| "geometryCentroid (LineString pts) = (if pts = [] then None else Some (average pts))"
| "geometryCentroid (MultiLineString lines) =
     (let all = concat lines in if all = [] then None else Some (average all))"
| "geometryCentroid (Polygon rings) =
     (case rings of
        [] \<Rightarrow> None
      | outer # _ \<Rightarrow>
          if outer = [] then None
          else case ringCentroid outer of
                 Some rc \<Rightarrow> Some (cx rc, cy rc)
               | None \<Rightarrow> Some (average outer))"
| "geometryCentroid (MultiPolygon polys) =
     (case fold multi_step polys (0, 0, 0) of (sumCx, sumCy, sumA) \<Rightarrow>
        if sumA > 0 then Some (fdiv sumCx sumA, fdiv sumCy sumA)
        else let all = concat (concat polys)
             in if all = [] then None else Some (average all))"
| "geometryCentroid (GeometryCollection _) = None"

subsection \<open>The chained resolver's own centroid\<close>

text \<open>The loop \<^verbatim>\<open>for (let i=0;i<n;i++)\<close> pairing \<open>ring[i]\<close> with \<open>ring[(i+1)%n]\<close>.\<close>

definition wrap_sums :: "position list \<Rightarrow> real \<times> real \<times> real" where
  "wrap_sums ring =
     fold (\<lambda>i. edge_step (ring ! i) (ring ! ((i + 1) mod length ring))) [0 ..< length ring] (0, 0, 0)"

text \<open>\<^verbatim>\<open>ring[0] ?? null\<close>\<close>

definition first_or_null :: "'a list \<Rightarrow> 'a option" where
  "first_or_null ring = (case ring of [] \<Rightarrow> None | p # _ \<Rightarrow> Some p)"

text \<open>\<^verbatim>\<open>poly[0] || []\<close>\<close>

definition outer_or_empty :: "'a list list \<Rightarrow> 'a list" where
  "outer_or_empty poly = (case poly of [] \<Rightarrow> [] | ring # _ \<Rightarrow> ring)"

text \<open>One iteration of the MultiPolygon loop of \<open>centroid\<close>.\<close>

definition poly_step :: "position list list \<Rightarrow> real \<times> real \<times> real \<Rightarrow> real \<times> real \<times> real" where
  "poly_step poly acc =
     (case acc of (A, CX, CY) \<Rightarrow>
        let ring = outer_or_empty poly
        in if length ring < 3 then acc
           else case wrap_sums ring of (a, sx, sy) \<Rightarrow>
                  if a \<noteq> 0 then (fadd A a, fadd CX sx, fadd CY sy) else acc)"

text \<open>
  The last branch of \<open>centroid\<close> flattens the coordinates two levels deep, which for
  every remaining kind yields bare numbers (or nothing); destructuring a number in the
  reducer throws, the enclosing \<^verbatim>\<open>catch\<close> returns null, and an empty array returns
  null directly. A GeometryCollection has no \<open>coordinates\<close> at all. So every kind other
  than Point, Polygon and MultiPolygon gives null.
\<close>

fun centroid :: "geometry option \<Rightarrow> position option" where
  "centroid None = None"
| "centroid (Some (Point p)) = Some p"
| "centroid (Some (Polygon rings)) =
     (let ring = outer_or_empty rings
      in if length ring < 3 then first_or_null ring
         else case wrap_sums ring of (a, sx, sy) \<Rightarrow>
                if a = 0 then first_or_null ring
                else Some (fdiv sx (fmul 3 a), fdiv sy (fmul 3 a)))"
| "centroid (Some (MultiPolygon polys)) =
     (case fold poly_step polys (0, 0, 0) of (A, CX, CY) \<Rightarrow>
        if A = 0 then first_or_null (outer_or_empty (outer_or_empty polys))
        else Some (fdiv CX (fmul 3 A), fdiv CY (fmul 3 A)))"
| "centroid (Some (MultiPoint _)) = None"
| "centroid (Some (LineString _)) = None"
| "centroid (Some (MultiLineString _)) = None"
| "centroid (Some (GeometryCollection _)) = None"

subsection \<open>The quantities the specification names\<close>

text \<open>
  Coordinates of magnitude at most \<open>2 ^ 300\<close>. A ring has fewer than \<open>2 ^ 32\<close> points
  (the longest JavaScript array), a product of two such coordinates is at most \<open>2 ^ 600\<close>,
  a cross term at most \<open>2 ^ 601\<close>, its product with a sum of two coordinates at most
  \<open>2 ^ 902\<close>, so no sum of either loop reaches \<open>2 powi 1024\<close>: on such a ring the
  program computes only finite doubles, and the model is the program.
\<close>

definition in_range :: "position list \<Rightarrow> bool" where
  "in_range ring = list_all (\<lambda>(x, y). \<bar>x\<bar> \<le> 2 ^ 300 \<and> \<bar>y\<bar> \<le> 2 ^ 300) ring"

text \<open>
  The signed shoelace sum of a ring as the specification words it: over every
  consecutive pair, wrapping from the last point to the first, the sum of
  \<open>x\<^sub>i * y\<^sub>i\<^sub>+\<^sub>1 - x\<^sub>i\<^sub>+\<^sub>1 * y\<^sub>i\<close>. It is twice the signed area. \<open>shoelace\<close> is the exact sum,
  \<open>shoelace_fl\<close> the same sum evaluated in doubles from left to right.
\<close>

definition cross :: "position \<Rightarrow> position \<Rightarrow> real" where
  "cross p q = fst p * snd q - fst q * snd p"

definition shoelace :: "position list \<Rightarrow> real" where
  "shoelace ring = (\<Sum>i < length ring. cross (ring ! i) (ring ! ((i + 1) mod length ring)))"

definition cross_fl :: "position \<Rightarrow> position \<Rightarrow> real" where
  "cross_fl p q = fsub (fmul (fst p) (snd q)) (fmul (fst q) (snd p))"

definition shoelace_fl :: "position list \<Rightarrow> real" where
  "shoelace_fl ring =
     foldl (\<lambda>s i. fadd s (cross_fl (ring ! i) (ring ! ((i + 1) mod length ring)))) 0
       [0 ..< length ring]"


definition sum_fl :: "real list \<Rightarrow> real" where
  "sum_fl xs = foldl fadd 0 xs"

definition mean_fl :: "position list \<Rightarrow> position" where
  "mean_fl pts =
     (fdiv (sum_fl (map fst pts)) (real (length pts)), fdiv (sum_fl (map snd pts)) (real (length pts)))"

text \<open>
  The centroids and areas \<open>ringCentroid\<close> finds for the outer rings of a MultiPolygon,
  one per member polygon whose outer ring has a centroid, and the average of a list of
  points weighted by the absolute value of an area each, evaluated in doubles.
\<close>

definition outer_centroids :: "position list list list \<Rightarrow> ring_centroid list" where
  "outer_centroids polys = List.map_filter (\<lambda>poly. ringCentroid (outer_or_empty poly)) polys"

definition total_abs_area :: "ring_centroid list \<Rightarrow> real" where
  "total_abs_area rcs = sum_fl (map (\<lambda>rc. \<bar>area rc\<bar>) rcs)"

definition abs_weighted_mean :: "ring_centroid list \<Rightarrow> position" where
  "abs_weighted_mean rcs =
     (fdiv (sum_fl (map (\<lambda>rc. fmul (cx rc) \<bar>area rc\<bar>) rcs)) (total_abs_area rcs),
      fdiv (sum_fl (map (\<lambda>rc. fmul (cy rc) \<bar>area rc\<bar>) rcs)) (total_abs_area rcs))"

section \<open>JSON values, features and tool results\<close>

text \<open>
  Provider rows and feature properties are untyped JSON in the source (\<^verbatim>\<open>any\<close>).
  A JavaScript string is modelled as an Isabelle \<open>string\<close>, each \<open>char\<close> standing for
  the UTF-16 code unit of the same number, so the model covers the strings whose code
  units are below 256.
\<close>

datatype jsonval =
    JUndefined
  | JNull
  | JBool bool
  | JNum real
  | JStr string
  | JArr "jsonval list"
  | JObj "(string \<times> jsonval) list"

type_synonym props = "(string \<times> jsonval) list"

text \<open>
  A GeoJSON Feature. The geometry is optional because the chained resolver reads it from
  a cached result as \<^verbatim>\<open>Geometry | undefined\<close> and tests it for null.
\<close>

record feature =
  geometry :: "geometry option"
  properties :: props

text \<open>Reading a key of an object literal: an absent key reads as \<^verbatim>\<open>undefined\<close>.\<close>

definition get_prop :: "props \<Rightarrow> string \<Rightarrow> jsonval" where
  "get_prop ps k = (case map_of ps k of None \<Rightarrow> JUndefined | Some v \<Rightarrow> v)"

text \<open>\<^verbatim>\<open>source: "nominatim" | "fsq"\<close>\<close>

datatype provenance = SrcNominatim | SrcFsq

text \<open>
  \<^verbatim>\<open>ToolResult = { ok: true; data; source } | { ok: false; error; status? }\<close>;
  a FeatureCollection is its list of features.
\<close>

datatype ToolResult =
    Ok "feature list" provenance
  | Fail string "nat option"

text \<open>A call either returns or lets an exception escape to its caller.\<close>

datatype 'a outcome = Returns 'a | Throws

text \<open>
  Property access \<^verbatim>\<open>v.k\<close> on a JSON value, for the keys the normalizers read (none of
  them is a built-in property of a string, a number, a boolean or an array): it throws
  on null and undefined, reads the key of an object, and is undefined otherwise.
\<close>

definition js_get :: "jsonval \<Rightarrow> string \<Rightarrow> jsonval outcome" where
  "js_get v k =
     (case v of
        JUndefined \<Rightarrow> Throws
      | JNull \<Rightarrow> Throws
      | JObj kvs \<Rightarrow> Returns (get_prop kvs k)
      | _ \<Rightarrow> Returns JUndefined)"

text \<open>\<^verbatim>\<open>String(n)\<close> for a non-negative integer.\<close>

fun show_nat :: "nat \<Rightarrow> string" where
  "show_nat n =
     (if n < 10 then [''0123456789'' ! n]
      else show_nat (n div 10) @ [''0123456789'' ! (n mod 10)])"

text \<open>
  \<^verbatim>\<open>String.prototype.trim\<close> and \<^verbatim>\<open>toLowerCase\<close> on code units below 256: the
  white space there is TAB, LF, VT, FF, CR, SPACE and NBSP; the letters with a lower case
  are A to Z and U+00C0 to U+00DE without the multiplication sign U+00D7.
\<close>

definition js_whitespace :: "char \<Rightarrow> bool" where
  "js_whitespace c = (of_char c \<in> {9, 10, 11, 12, 13, 32, 160 :: nat})"

definition js_trim :: "string \<Rightarrow> string" where
  "js_trim s = rev (dropWhile js_whitespace (rev (dropWhile js_whitespace s)))"

definition js_lower_char :: "char \<Rightarrow> char" where
  "js_lower_char c =
     (let n = (of_char c :: nat)
      in if (65 \<le> n \<and> n \<le> 90) \<or> (192 \<le> n \<and> n \<le> 222 \<and> n \<noteq> 215)
         then char_of (n + 32) else c)"

definition js_toLowerCase :: "string \<Rightarrow> string" where
  "js_toLowerCase s = map js_lower_char s"

text \<open>\<^verbatim>\<open>Math.round\<close>: the nearest integer, a tie going up.\<close>

definition js_round :: "real \<Rightarrow> real" where
  "js_round x = of_int \<lfloor>x + 1 / 2\<rfloor>"

section \<open>Result normalizers\<close>

subsection \<open>services/nominatim: toFeatureCollection\<close>

text \<open>
  A row of the geocoder's answer. \<open>geojson\<close> is the provider's own geometry when the row
  has one; \<open>lon\<close> and \<open>lat\<close> are the numbers \<^verbatim>\<open>parseFloat\<close> reads from the row.
\<close>

record nominatim_row =
  geojson :: "geometry option"
  lon :: real
  lat :: real
  display_name :: jsonval
  category :: jsonval
  row_type :: jsonval
  importance :: jsonval
  osm_type :: jsonval
  osm_id :: jsonval

definition nominatim_feature :: "nominatim_row \<Rightarrow> feature" where
  "nominatim_feature it =
     \<lparr>geometry = Some (case geojson it of Some g \<Rightarrow> g | None \<Rightarrow> Point (lon it, lat it)),
      properties =
        [(''display_name'', display_name it),
         (''category'', category it),
         (''type'', row_type it),
         (''importance'', importance it),
         (''osm_type'', osm_type it),
         (''osm_id'', osm_id it)]\<rparr>"

text \<open>
  \<^verbatim>\<open>items.map((it) => ...)\<close>. A row that is null or undefined (\<open>None\<close>) makes
  \<^verbatim>\<open>it.geojson\<close> throw.
\<close>

fun toFeatureCollection :: "nominatim_row option list \<Rightarrow> feature list outcome" where
  "toFeatureCollection [] = Returns []"
| "toFeatureCollection (None # items) = Throws"
| "toFeatureCollection (Some it # items) =
     (case toFeatureCollection items of
        Throws \<Rightarrow> Throws
      | Returns fs \<Rightarrow> Returns (nominatim_feature it # fs))"

subsection \<open>services/foursquare: fsqResultsToGeoJSON\<close>

text \<open>
  \<^verbatim>\<open>(r.categories ?? []).map((c) => c.name)\<close>: null and undefined give the empty
  list, any other value that is not an array has no \<open>map\<close> and throws, and so does a
  null or undefined element.
\<close>

fun category_names :: "jsonval list \<Rightarrow> jsonval list outcome" where
  "category_names [] = Returns []"
| "category_names (c # cs) =
     (case js_get c ''name'' of
        Throws \<Rightarrow> Throws
      | Returns n \<Rightarrow>
          (case category_names cs of
             Throws \<Rightarrow> Throws
           | Returns ns \<Rightarrow> Returns (n # ns)))"

definition fsq_categories :: "jsonval \<Rightarrow> jsonval outcome" where
  "fsq_categories v =
     (case v of
        JUndefined \<Rightarrow> Returns (JArr [])
      | JNull \<Rightarrow> Returns (JArr [])
      | JArr cs \<Rightarrow> (case category_names cs of Throws \<Rightarrow> Throws | Returns ns \<Rightarrow> Returns (JArr ns))
      | _ \<Rightarrow> Throws)"

text \<open>
  One iteration of the loop: \<open>Returns None\<close> is \<^verbatim>\<open>continue\<close>, \<open>Returns (Some f)\<close>
  is the pushed feature.
\<close>

definition fsq_row :: "jsonval \<Rightarrow> feature option outcome" where
  "fsq_row r =
     (case js_get r ''latitude'' of
        Throws \<Rightarrow> Throws
      | Returns latitude \<Rightarrow>
     (case js_get r ''longitude'' of
        Throws \<Rightarrow> Throws
      | Returns longitude \<Rightarrow>
     (case (latitude, longitude) of
        (JNum la, JNum lo) \<Rightarrow>
          (case js_get r ''fsq_id'' of Throws \<Rightarrow> Throws | Returns fsq_id \<Rightarrow>
          (case js_get r ''name'' of Throws \<Rightarrow> Throws | Returns name \<Rightarrow>
          (case js_get r ''location'' of Throws \<Rightarrow> Throws | Returns location \<Rightarrow>
          (case js_get location ''address'' of Throws \<Rightarrow> Throws | Returns address \<Rightarrow>
          (case js_get r ''categories'' of Throws \<Rightarrow> Throws | Returns cats \<Rightarrow>
          (case fsq_categories cats of Throws \<Rightarrow> Throws | Returns categories \<Rightarrow>
          (case js_get r ''distance'' of Throws \<Rightarrow> Throws | Returns distance \<Rightarrow>
             Returns (Some
               \<lparr>geometry = Some (Point (lo, la)),
                properties =
                  [(''source'', JStr ''foursquare''),
                   (''fsq_id'', fsq_id),
                   (''name'', name),
                   (''address'', address),
                   (''categories'', categories),
                   (''distance'', distance)]\<rparr>))))))))
      | _ \<Rightarrow> Returns None)))"

fun fsq_rows :: "jsonval list \<Rightarrow> feature list outcome" where
  "fsq_rows [] = Returns []"
| "fsq_rows (r # rs) =
     (case fsq_row r of
        Throws \<Rightarrow> Throws
      | Returns None \<Rightarrow> fsq_rows rs
      | Returns (Some f) \<Rightarrow>
          (case fsq_rows rs of Throws \<Rightarrow> Throws | Returns fs \<Rightarrow> Returns (f # fs)))"

text \<open>
  \<^verbatim>\<open>for (const r of results ?? [])\<close>: null and undefined give no rows, an array its
  elements, a string its characters; a number, a boolean or an object is not iterable.
\<close>

definition fsqResultsToGeoJSON :: "jsonval \<Rightarrow> feature list outcome" where
  "fsqResultsToGeoJSON results =
     (case results of
        JUndefined \<Rightarrow> Returns []
      | JNull \<Rightarrow> Returns []
      | JArr rs \<Rightarrow> fsq_rows rs
      | JStr s \<Rightarrow> fsq_rows (map (\<lambda>c. JStr [c]) s)
      | _ \<Rightarrow> Throws)"

section \<open>Caching layer\<close>

text \<open>
  Both caches are a JavaScript \<open>Map\<close> from a string key to \<^verbatim>\<open>{ value, expires }\<close>.
  A \<open>Map\<close> iterates in insertion order, deleting a key removes it from that order, and
  setting a key that is present replaces its entry where it stands. The model is the
  list of the entries in iteration order. Times are milliseconds, as \<^verbatim>\<open>Date.now()\<close>
  gives them.
\<close>

record 'v CacheEntry =
  cached :: 'v
  expires :: int

type_synonym 'v cache = "(string \<times> 'v CacheEntry) list"

definition map_delete :: "string \<Rightarrow> 'v cache \<Rightarrow> 'v cache" where
  "map_delete k m = filter (\<lambda>(k', e). k' \<noteq> k) m"

definition map_set :: "string \<Rightarrow> 'v CacheEntry \<Rightarrow> 'v cache \<Rightarrow> 'v cache" where
  "map_set k e m =
     (if map_of m k = None then m @ [(k, e)]
      else map (\<lambda>(k', e'). if k' = k then (k', e) else (k', e')) m)"

text \<open>
  The two files hold the same pair of functions, apart from the capacity and the default
  time to live. \<open>now\<close> is what \<^verbatim>\<open>Date.now()\<close> returns inside the call.
  \<^verbatim>\<open>
  function cacheGet(k) {
      const hit = CACHE.get(k);
      if (!hit) return;
      if (Date.now() > hit.expires) { CACHE.delete(k); return; }
      return hit.value;
  }
  function cacheSet(k, v, ttl = CACHE_TTL_MS) {
      if (CACHE.size >= CACHE_MAX) {
          const first = CACHE.keys().next().value;
          if (first) CACHE.delete(first);
      }
      CACHE.set(k, { value: v, expires: Date.now() + ttl });
  }\<close>
  The test \<^verbatim>\<open>if (first)\<close> fails for an empty \<open>Map\<close> and for the empty string.
\<close>

definition cache_get :: "int \<Rightarrow> string \<Rightarrow> 'v cache \<Rightarrow> 'v cache \<times> 'v option" where
  "cache_get now k C =
     (case map_of C k of
        None \<Rightarrow> (C, None)
      | Some hit \<Rightarrow>
          if now > expires hit then (map_delete k C, None)
          else (C, Some (cached hit)))"

definition evict_first :: "'v cache \<Rightarrow> 'v cache" where
  "evict_first C =
     (case C of
        [] \<Rightarrow> C
      | (first, e) # rest \<Rightarrow> if first \<noteq> [] then map_delete first C else C)"

definition cache_set :: "nat \<Rightarrow> int \<Rightarrow> string \<Rightarrow> 'v \<Rightarrow> int \<Rightarrow> 'v cache \<Rightarrow> 'v cache" where
  "cache_set cache_max now k v ttl C =
     map_set k \<lparr>cached = v, expires = now + ttl\<rparr>
       (if length C \<ge> cache_max then evict_first C else C)"

text \<open>services/nominatim: ten minutes, 300 entries.\<close>

definition CACHE_TTL_MS :: int where
  "CACHE_TTL_MS = 10 * 60 * 1000"

definition CACHE_MAX :: nat where
  "CACHE_MAX = 300"

definition cacheGet :: "int \<Rightarrow> string \<Rightarrow> ToolResult cache \<Rightarrow> ToolResult cache \<times> ToolResult option" where
  "cacheGet now k C = cache_get now k C"

definition cacheSet :: "int \<Rightarrow> string \<Rightarrow> ToolResult \<Rightarrow> int \<Rightarrow> ToolResult cache \<Rightarrow> ToolResult cache" where
  "cacheSet now k v ttl C = cache_set CACHE_MAX now k v ttl C"

text \<open>tools/tripadvisor: one day, 500 entries, values \<^verbatim>\<open>{ lng, lat }\<close>.\<close>

type_synonym CacheValue = "real \<times> real"

definition geocode_CACHE_TTL_MS :: int where
  "geocode_CACHE_TTL_MS = 24 * 60 * 60 * 1000"

definition geocode_CACHE_MAX :: nat where
  "geocode_CACHE_MAX = 500"

definition geocode_cacheGet :: "int \<Rightarrow> string \<Rightarrow> CacheValue cache \<Rightarrow> CacheValue cache \<times> CacheValue option" where
  "geocode_cacheGet now k C = cache_get now k C"

definition geocode_cacheSet :: "int \<Rightarrow> string \<Rightarrow> CacheValue \<Rightarrow> int \<Rightarrow> CacheValue cache \<Rightarrow> CacheValue cache" where
  "geocode_cacheSet now k v ttl C = cache_set geocode_CACHE_MAX now k v ttl C"

subsection \<open>Sequences of cache operations\<close>

text \<open>
  A get carries the key and the time of the call; a set carries the key, the stored
  result, the time of the call and the time to live.
\<close>

datatype 'v cache_op = OpGet string int | OpSet string 'v int int

fun apply_op :: "nat \<Rightarrow> 'v cache_op \<Rightarrow> 'v cache \<Rightarrow> 'v cache" where
  "apply_op cache_max (OpGet k now) C = fst (cache_get now k C)"
| "apply_op cache_max (OpSet k v now ttl) C = cache_set cache_max now k v ttl C"

definition run_ops :: "nat \<Rightarrow> 'v cache_op list \<Rightarrow> 'v cache \<Rightarrow> 'v cache" where
  "run_ops cache_max ops C = fold (apply_op cache_max) ops C"

fun op_key :: "'v cache_op \<Rightarrow> string" where
  "op_key (OpGet k now) = k"
| "op_key (OpSet k v now ttl) = k"

text \<open>
  The same operations on a cache whose entries also carry the number of the operation
  that inserted their key: a ghost field, written when \<open>Map.set\<close> adds a key and kept
  when it replaces the entry of a key that is present.
\<close>

type_synonym 'v stamped = "(string \<times> 'v CacheEntry \<times> nat) list"

definition unstamp :: "'v stamped \<Rightarrow> 'v cache" where
  "unstamp G = map (\<lambda>(k, e, s). (k, e)) G"

definition stamps :: "'v stamped \<Rightarrow> nat list" where
  "stamps G = map (\<lambda>(k, e, s). s) G"

definition st_delete :: "string \<Rightarrow> 'v stamped \<Rightarrow> 'v stamped" where
  "st_delete k G = filter (\<lambda>(k', e, s). k' \<noteq> k) G"

definition st_set :: "nat \<Rightarrow> string \<Rightarrow> 'v CacheEntry \<Rightarrow> 'v stamped \<Rightarrow> 'v stamped" where
  "st_set n k e G =
     (if map_of G k = None then G @ [(k, e, n)]
      else map (\<lambda>(k', e', s). if k' = k then (k', e, s) else (k', e', s)) G)"

definition st_evict_first :: "'v stamped \<Rightarrow> 'v stamped" where
  "st_evict_first G =
     (case G of
        [] \<Rightarrow> G
      | (first, e, s) # rest \<Rightarrow> if first \<noteq> [] then st_delete first G else G)"

fun st_apply :: "nat \<Rightarrow> nat \<Rightarrow> 'v cache_op \<Rightarrow> 'v stamped \<Rightarrow> 'v stamped" where
  "st_apply cache_max n (OpGet k now) G =
     (case map_of G k of
        None \<Rightarrow> G
      | Some (hit, s) \<Rightarrow> if now > expires hit then st_delete k G else G)"
| "st_apply cache_max n (OpSet k v now ttl) G =
     st_set n k \<lparr>cached = v, expires = now + ttl\<rparr>
       (if length G \<ge> cache_max then st_evict_first G else G)"

text \<open>Operation number \<open>n\<close> is the first of \<open>ops\<close>.\<close>

fun st_run :: "nat \<Rightarrow> nat \<Rightarrow> 'v cache_op list \<Rightarrow> 'v stamped \<Rightarrow> 'v stamped" where
  "st_run cache_max n [] G = G"
| "st_run cache_max n (x # ops) G = st_run cache_max (Suc n) ops (st_apply cache_max n x G)"

text \<open>
  What every stamped cache built by operation number \<open>n\<close> satisfies: the keys are
  distinct and non-empty, the stamps increase along the iteration order and are below
  \<open>n\<close>, and the size is within the capacity.
\<close>

definition st_inv :: "nat \<Rightarrow> nat \<Rightarrow> 'v stamped \<Rightarrow> bool" where
  "st_inv cache_max n G =
     (distinct (map fst G) \<and> [] \<notin> set (map fst G) \<and> sorted_wrt (<) (stamps G)
      \<and> list_all (\<lambda>s. s < n) (stamps G) \<and> length G \<le> cache_max)"

section \<open>Place resolver: runNominatimSearch\<close>

record near_bias =
  near_lat :: real
  near_lng :: real
  radiusKm :: "real option"

record NominatimSearchArgs =
  query :: string
  limit :: "real option"
  countrycodes :: "string option"
  polygon :: "bool option"
  language :: "string option"
  near :: "near_bias option"

text \<open>
  What the network does with the one request of a call: \<^verbatim>\<open>fetch\<close> rejects with a
  message, or answers with a status that is not a success, or answers successfully with
  a body that does not parse, or with a parsed body that is an array of rows (a null row
  is \<open>None\<close>) or some other JSON value (\<open>JsonValue None\<close>).
\<close>

datatype nominatim_response =
    FetchThrows string
  | HttpStatus nat
  | JsonThrows
  | JsonValue "nominatim_row option list option"

text \<open>
  The canonical key object of \<open>cacheKey\<close>:
  \<^verbatim>\<open>
  { q: args.query.trim().toLowerCase(), limit: args.limit ?? 5, cc: args.countrycodes ?? "",
    poly: args.polygon !== false, lang: args.language ?? "",
    near: args.near ? { lat: Number(args.near.lat.toFixed(4)), lng: Number(args.near.lng.toFixed(4)),
                        r: args.near.radiusKm ? Math.round(args.near.radiusKm * 10) / 10 : 2 } : null }\<close>
  (the fields are prefixed with \<open>key_\<close> here). \<open>fixed4\<close> is \<^verbatim>\<open>Number(x.toFixed(4))\<close>: the nearest multiple of 0.0001, a tie going
  away from zero; from 1e21 on \<^verbatim>\<open>toFixed\<close> prints the number itself.
\<close>

record keyObj =
  key_q :: string
  key_limit :: real
  key_cc :: string
  key_poly :: bool
  key_lang :: string
  key_near :: "(real \<times> real \<times> real) option"

definition fixed4 :: "real \<Rightarrow> real" where
  "fixed4 x =
     (if \<bar>x\<bar> \<ge> 10 ^ 21 then x
      else sgn x * (of_int \<lfloor>\<bar>x\<bar> * 10000 + 1 / 2\<rfloor> / 10000))"

definition canonical :: "NominatimSearchArgs \<Rightarrow> keyObj" where
  "canonical args =
     \<lparr>key_q = js_toLowerCase (js_trim (query args)),
      key_limit = (case limit args of None \<Rightarrow> 5 | Some l \<Rightarrow> l),
      key_cc = (case countrycodes args of None \<Rightarrow> [] | Some c \<Rightarrow> c),
      key_poly = (polygon args \<noteq> Some False),
      key_lang = (case language args of None \<Rightarrow> [] | Some l \<Rightarrow> l),
      key_near =
        (case near args of
           None \<Rightarrow> None
         | Some n \<Rightarrow>
             Some (fixed4 (near_lat n), fixed4 (near_lng n),
                   (case radiusKm n of
                      None \<Rightarrow> 2
                    | Some r \<Rightarrow> if r = 0 then 2 else js_round (r * 10) / 10)))\<rparr>"

text \<open>
  \<^verbatim>\<open>return JSON.stringify(keyObj)\<close>, with the serialisation of a key object as the
  parameter \<open>stringify\<close>.
\<close>

definition cacheKey :: "(keyObj \<Rightarrow> string) \<Rightarrow> NominatimSearchArgs \<Rightarrow> string" where
  "cacheKey stringify args = stringify (canonical args)"

text \<open>
  The call. \<open>stringify\<close> is the serialisation used by \<open>cacheKey\<close>; \<open>fetch\<close> answers
  the request built from the arguments; \<open>t_get\<close> and \<open>t_set\<close> are the clock readings
  inside \<open>cacheGet\<close> and \<open>cacheSet\<close>. The result is the cache after the call, the
  requests sent, and what the call returned.
\<close>

definition runNominatimSearch ::
  "(keyObj \<Rightarrow> string) \<Rightarrow> (NominatimSearchArgs \<Rightarrow> nominatim_response) \<Rightarrow> int \<Rightarrow> int
     \<Rightarrow> NominatimSearchArgs \<Rightarrow> ToolResult cache
     \<Rightarrow> ToolResult cache \<times> NominatimSearchArgs list \<times> ToolResult outcome" where
  "runNominatimSearch stringify fetch t_get t_set args C =
     (let key = cacheKey stringify args
      in case cacheGet t_get key C of
           (C1, Some hit) \<Rightarrow> (C1, [], Returns hit)
         | (C1, None) \<Rightarrow>
             if query args = [] \<or> length (js_trim (query args)) < 2 then
               (let res = Fail ''Query too short'' None
                in (cacheSet t_set key res CACHE_TTL_MS C1, [], Returns res))
             else
               (case fetch args of
                  FetchThrows msg \<Rightarrow>
                    (let res = Fail (''Network error: '' @ msg) None
                     in (cacheSet t_set key res (2 * 60 * 1000) C1, [args], Returns res))
                | HttpStatus status \<Rightarrow>
                    (let res = Fail (''Nominatim '' @ show_nat status) (Some status)
                     in (cacheSet t_set key res (2 * 60 * 1000) C1, [args], Returns res))
                | JsonThrows \<Rightarrow> (C1, [args], Throws)
                | JsonValue rows \<Rightarrow>
                    (case toFeatureCollection (case rows of Some items \<Rightarrow> items | None \<Rightarrow> []) of
                       Throws \<Rightarrow> (C1, [args], Throws)
                     | Returns fc \<Rightarrow>
                         (let out = Ok fc SrcNominatim
                          in (cacheSet t_set key out CACHE_TTL_MS C1, [args], Returns out)))))"

section \<open>Chained recommendation resolver\<close>

subsection \<open>services/foursquare: fsqSearch\<close>

record FsqSearchOpts =
  ll :: "real \<times> real"
  fsq_query :: "string option"
  radiusMeters :: "real option"
  fsq_limit :: "real option"

text \<open>The request parameters; \<open>param_ll\<close> is the pair (lat, lng) that the source prints into a string.\<close>

record FsqParams =
  param_ll :: "real \<times> real"
  param_radius :: real
  param_limit :: real
  param_query :: "string option"

datatype fsq_result = FsqOk jsonval | FsqFail string

text \<open>
  \<open>api_key\<close> is \<^verbatim>\<open>process.env.FOURSQUARE_API_KEY\<close>. \<open>placeSearch\<close> is the provider call
  followed by \<^verbatim>\<open>.then\<close> and \<^verbatim>\<open>.catch\<close>: \<open>Inr\<close> the \<^verbatim>\<open>res.data.results\<close> of an
  answer, \<open>Inl\<close> the message of whatever was thrown.
\<close>

definition fsqSearch ::
  "string option \<Rightarrow> (FsqParams \<Rightarrow> string + jsonval) \<Rightarrow> FsqSearchOpts \<Rightarrow> fsq_result" where
  "fsqSearch api_key placeSearch opts =
     (if api_key = None \<or> api_key = Some [] then FsqFail ''Missing FOURSQUARE_API_KEY''
      else
        (let radiusMeters' = (case radiusMeters opts of None \<Rightarrow> 3000 | Some r \<Rightarrow> r);
             limit' = (case fsq_limit opts of None \<Rightarrow> 10 | Some l \<Rightarrow> l);
             params = \<lparr>param_ll = ll opts,
                       param_radius = radiusMeters',
                       param_limit = min (max limit' 1) 50,
                       param_query = (case fsq_query opts of
                                        None \<Rightarrow> None
                                      | Some q \<Rightarrow> if q = [] then None else Some q)\<rparr>
         in case placeSearch params of
              Inr results \<Rightarrow> FsqOk results
            | Inl msg \<Rightarrow> FsqFail msg))"

subsection \<open>foursquareByPlaceTool\<close>

text \<open>
  \<^verbatim>\<open>rating >= minRating\<close> against a number: undefined is never at least anything,
  null counts as 0, a boolean as 0 or 1, a number as itself; a string, an array or an
  object is first converted by JavaScript's \<open>ToNumber\<close>, which is the parameter
  \<open>to_number\<close> (\<open>None\<close> for NaN).
\<close>

definition js_ge :: "(jsonval \<Rightarrow> real option) \<Rightarrow> jsonval \<Rightarrow> real \<Rightarrow> bool" where
  "js_ge to_number v m =
     (case v of
        JUndefined \<Rightarrow> False
      | JNull \<Rightarrow> 0 \<ge> m
      | JBool b \<Rightarrow> (if b then 1 else 0) \<ge> m
      | JNum r \<Rightarrow> r \<ge> m
      | _ \<Rightarrow> (case to_number v of None \<Rightarrow> False | Some r \<Rightarrow> r \<ge> m))"

text \<open>
  Step 4 of \<open>execute\<close>:
  \<^verbatim>\<open>if (typeof minRating === "number") fc = { ..., features: fc.features.filter(f => f.properties?.rating >= minRating) }\<close>
\<close>

definition rating_filter :: "(jsonval \<Rightarrow> real option) \<Rightarrow> real option \<Rightarrow> feature list \<Rightarrow> feature list" where
  "rating_filter to_number minRating fs =
     (case minRating of
        None \<Rightarrow> fs
      | Some m \<Rightarrow> filter (\<lambda>f. js_ge to_number (get_prop (properties f) ''rating'') m) fs)"

text \<open>The feature that \<open>execute\<close> puts in front of the collection.\<close>

definition search_center :: "string \<Rightarrow> geometry option \<Rightarrow> feature" where
  "search_center place g =
     \<lparr>geometry = g,
      properties =
        [(''source'', JStr ''nominatim''),
         (''name'', JStr place),
         (''category'', JStr ''search-center'')]\<rparr>"

record fsq_input =
  place :: string
  search_query :: string
  radius_km :: real
  result_limit :: real
  minRating :: "real option"

text \<open>
  \<open>execute\<close>, with the parameters of \<open>runNominatimSearch\<close> and \<open>fsqSearch\<close> and the cache
  passed through. It returns the cache after the call and what the call returned.
\<close>

definition foursquareByPlaceTool ::
  "(keyObj \<Rightarrow> string) \<Rightarrow> (NominatimSearchArgs \<Rightarrow> nominatim_response) \<Rightarrow> int \<Rightarrow> int
     \<Rightarrow> string option \<Rightarrow> (FsqParams \<Rightarrow> string + jsonval) \<Rightarrow> (jsonval \<Rightarrow> real option)
     \<Rightarrow> fsq_input \<Rightarrow> ToolResult cache \<Rightarrow> ToolResult cache \<times> ToolResult outcome" where
  "foursquareByPlaceTool stringify fetch t_get t_set api_key placeSearch to_number inp C =
     (case runNominatimSearch stringify fetch t_get t_set
             \<lparr>query = place inp, limit = Some 1, countrycodes = None, polygon = None,
              language = None, near = None\<rparr> C of
        (C', reqs, Throws) \<Rightarrow> (C', Throws)
      | (C', reqs, Returns (Fail err status)) \<Rightarrow>
          (C', Returns (Fail (''Could not locate '' @ [CHR 0x22] @ place inp @ [CHR 0x22]) None))
      | (C', reqs, Returns (Ok [] src)) \<Rightarrow>
          (C', Returns (Fail (''Could not locate '' @ [CHR 0x22] @ place inp @ [CHR 0x22]) None))
      | (C', reqs, Returns (Ok (f0 # rest) src)) \<Rightarrow>
          (let g = geometry f0
           in case centroid g of
                None \<Rightarrow> (C', Returns (Fail ''No usable centroid from place geometry'' None))
              | Some (c_lng, c_lat) \<Rightarrow>
                  (case fsqSearch api_key placeSearch
                          \<lparr>ll = (c_lat, c_lng), fsq_query = Some (search_query inp),
                           radiusMeters = Some (js_round (radius_km inp * 1000)),
                           fsq_limit = Some (result_limit inp)\<rparr> of
                     FsqFail msg \<Rightarrow> (C', Returns (Fail msg None))
                   | FsqOk results \<Rightarrow>
                       (case fsqResultsToGeoJSON results of
                          Throws \<Rightarrow> (C', Throws)
                        | Returns fc \<Rightarrow>
                            (C', Returns (Ok (search_center (place inp) g
                                              # rating_filter to_number (minRating inp) fc) SrcFsq))))))"

section \<open>Fallback geocoder and the per-POI loop of tripAdvisorByPlaceTool\<close>

record TAItem =
  location_id :: "string option"
  name :: "string option"
  address :: "string option"
  address_obj :: "string option option"
  latitude :: jsonval
  longitude :: jsonval

text \<open>
  \<open>parseFloat_finite\<close> is \<^verbatim>\<open>parseFloat\<close> followed by \<^verbatim>\<open>Number.isFinite\<close>: the number a
  string starts with, or nothing.
\<close>

definition asNumber :: "(string \<Rightarrow> real option) \<Rightarrow> jsonval \<Rightarrow> real option" where
  "asNumber parseFloat_finite n =
     (case n of
        JStr s \<Rightarrow> parseFloat_finite s
      | JNum r \<Rightarrow> Some r
      | _ \<Rightarrow> None)"

text \<open>\<^verbatim>\<open>item.address || item.address_obj?.address_string\<close>\<close>

definition item_address :: "TAItem \<Rightarrow> string option" where
  "item_address item =
     (case address item of
        Some a \<Rightarrow> if a \<noteq> [] then Some a else (case address_obj item of None \<Rightarrow> None | Some s \<Rightarrow> s)
      | None \<Rightarrow> (case address_obj item of None \<Rightarrow> None | Some s \<Rightarrow> s))"

definition opt_str :: "string option \<Rightarrow> jsonval" where
  "opt_str s = (case s of None \<Rightarrow> JUndefined | Some t \<Rightarrow> JStr t)"

definition poiFeature :: "TAItem \<Rightarrow> real \<Rightarrow> real \<Rightarrow> feature" where
  "poiFeature item lng lat' =
     \<lparr>geometry = Some (Point (lng, lat')),
      properties =
        [(''source'', JStr ''tripadvisor''),
         (''location_id'', opt_str (location_id item)),
         (''name'', opt_str (name item)),
         (''address'', opt_str (item_address item)),
         (''category'', JStr ''poi'')]\<rparr>"

text \<open>What the loop does besides computing: a geocoding request for an address, or a pause.\<close>

datatype event = Fetch string | Sleep nat

text \<open>
  The state the loop threads: the features pushed so far, the counter, the geocode
  cache, the clock (which a pause and a request advance) and the events so far.
\<close>

record ta_state =
  features :: "feature list"
  geocodeCount :: nat
  geocodeCache :: "CacheValue cache"
  clock :: int
  events :: "event list"

text \<open>
  The answer to a geocoding request: \<^verbatim>\<open>fetch\<close> rejects, or the status is not a
  success, or the body does not parse, or it parses and its first row, if any, has the
  given longitude and latitude.
\<close>

datatype geocode_response =
    GeoFetchThrows
  | GeoNotOk
  | GeoJsonThrows
  | GeoRows "(real \<times> real) option"

text \<open>
  The cache key: \<open>fixed3\<close> is \<^verbatim>\<open>toFixed(3)\<close>; \<open>bias\<close> is the argument \<^verbatim>\<open>near\<close>, as (lat, lng).
\<close>

definition geocode_key :: "(real \<Rightarrow> string) \<Rightarrow> string \<Rightarrow> (real \<times> real) option \<Rightarrow> string" where
  "geocode_key fixed3 addr bias =
     js_trim (js_toLowerCase addr) @ ''|'' @
       (case bias of None \<Rightarrow> [] | Some (nlat, nlng) \<Rightarrow> fixed3 nlat @ '','' @ fixed3 nlng)"

text \<open>
  \<open>geo_fetch\<close> answers the request for an address near a centre, and \<open>rtt\<close> is the time
  the request takes.
\<close>

definition geocodeAddressWithCache ::
  "(real \<Rightarrow> string) \<Rightarrow> (string \<Rightarrow> (real \<times> real) option \<Rightarrow> geocode_response) \<Rightarrow> int
     \<Rightarrow> string \<Rightarrow> (real \<times> real) option \<Rightarrow> ta_state \<Rightarrow> (ta_state \<times> CacheValue option) outcome" where
  "geocodeAddressWithCache fixed3 geo_fetch rtt addr bias s =
     (let key = geocode_key fixed3 addr bias
      in case geocode_cacheGet (clock s) key (geocodeCache s) of
           (C1, Some hit) \<Rightarrow> Returns (s\<lparr>geocodeCache := C1\<rparr>, Some hit)
         | (C1, None) \<Rightarrow>
             (let s1 = s\<lparr>geocodeCache := C1, clock := clock s + rtt,
                         events := events s @ [Fetch addr]\<rparr>
              in case geo_fetch addr bias of
                   GeoFetchThrows \<Rightarrow> Throws
                 | GeoNotOk \<Rightarrow> Returns (s1, None)
                 | GeoJsonThrows \<Rightarrow> Throws
                 | GeoRows None \<Rightarrow> Returns (s1, None)
                 | GeoRows (Some (first_lon, first_lat)) \<Rightarrow>
                     Returns
                       (s1\<lparr>geocodeCache :=
                             geocode_cacheSet (clock s1) key (first_lon, first_lat)
                               geocode_CACHE_TTL_MS C1\<rparr>,
                        Some (first_lon, first_lat))))"

text \<open>\<^verbatim>\<open>await sleep(ms)\<close>\<close>

definition sleep :: "nat \<Rightarrow> ta_state \<Rightarrow> ta_state" where
  "sleep ms s = s\<lparr>clock := clock s + int ms, events := events s @ [Sleep ms]\<rparr>"

text \<open>
  The loop \<^verbatim>\<open>for (const item of items)\<close>; \<open>center\<close> is (lat, lng).
\<close>

fun ta_loop ::
  "(string \<Rightarrow> real option) \<Rightarrow> (real \<Rightarrow> string)
     \<Rightarrow> (string \<Rightarrow> (real \<times> real) option \<Rightarrow> geocode_response) \<Rightarrow> int \<Rightarrow> real \<times> real
     \<Rightarrow> TAItem list \<Rightarrow> ta_state \<Rightarrow> ta_state outcome" where
  "ta_loop parseFloat_finite fixed3 geo_fetch rtt center [] s = Returns s"
| "ta_loop parseFloat_finite fixed3 geo_fetch rtt center (item # items) s =
     (case (asNumber parseFloat_finite (latitude item), asNumber parseFloat_finite (longitude item)) of
        (Some latTA, Some lngTA) \<Rightarrow>
          ta_loop parseFloat_finite fixed3 geo_fetch rtt center items
            (s\<lparr>features := features s @ [poiFeature item lngTA latTA]\<rparr>)
      | _ \<Rightarrow>
          (case item_address item of
             None \<Rightarrow> ta_loop parseFloat_finite fixed3 geo_fetch rtt center items s
           | Some addr \<Rightarrow>
               if addr = [] then ta_loop parseFloat_finite fixed3 geo_fetch rtt center items s
               else
                 (case geocodeAddressWithCache fixed3 geo_fetch rtt addr (Some center) s of
                    Throws \<Rightarrow> Throws
                  | Returns (s1, None) \<Rightarrow>
                      ta_loop parseFloat_finite fixed3 geo_fetch rtt center items s1
                  | Returns (s1, Some (g_lng, g_lat)) \<Rightarrow>
                      (let s2 = s1\<lparr>features := features s1 @ [poiFeature item g_lng g_lat],
                                  geocodeCount := geocodeCount s1 + 1\<rparr>
                       in ta_loop parseFloat_finite fixed3 geo_fetch rtt center items
                            (if geocodeCount s2 > 0 then sleep 1100 s2 else s2)))))"

section \<open>Properties the specification states\<close>

text \<open>
  The rating test in the specification's words: the feature has a rating property and it
  meets or exceeds the threshold.
\<close>

definition rating_at_least :: "real \<Rightarrow> feature \<Rightarrow> bool" where
  "rating_at_least m f =
     (case get_prop (properties f) ''rating'' of JNum r \<Rightarrow> m \<le> r | _ \<Rightarrow> False)"

text \<open>Every feature of a successful result has a geometry.\<close>

fun result_ok :: "ToolResult \<Rightarrow> bool" where
  "result_ok (Ok fc src) = list_all (\<lambda>f. geometry f \<noteq> None) fc"
| "result_ok (Fail err status) = True"

definition cache_ok :: "ToolResult cache \<Rightarrow> bool" where
  "cache_ok C = list_all (\<lambda>(k, e). result_ok (cached e)) C"

text \<open>
  The states of the result cache of the place resolver: it starts empty, and only calls
  of \<open>runNominatimSearch\<close>, made directly or by the chained resolver, change it.
\<close>

inductive reachable :: "(keyObj \<Rightarrow> string) \<Rightarrow> ToolResult cache \<Rightarrow> bool"
  for stringify :: "keyObj \<Rightarrow> string" where
  reachable_empty: "reachable stringify []"
| reachable_place:
    "reachable stringify C \<Longrightarrow>
     reachable stringify (fst (runNominatimSearch stringify fetch t_get t_set args C))"
| reachable_chained:
    "reachable stringify C \<Longrightarrow>
     reachable stringify
       (fst (foursquareByPlaceTool stringify fetch t_get t_set api_key placeSearch to_number inp C))"

section \<open>Sample inputs\<close>

text \<open>A geocoder row without a geometry of its own, and one with a triangle.\<close>

definition sample_point_row :: nominatim_row where
  "sample_point_row =
     \<lparr>geojson = None, lon = 103, lat = 1,
      display_name = JStr ''Jurong Point'', category = JStr ''shop'', row_type = JStr ''mall'',
      importance = JNum 1, osm_type = JStr ''way'', osm_id = JNum 42\<rparr>"

definition sample_polygon_row :: nominatim_row where
  "sample_polygon_row =
     \<lparr>geojson = Some (Polygon [[(0, 0), (3, 0), (0, 3)]]), lon = 1, lat = 1,
      display_name = JStr ''Gangnam-gu'', category = JStr ''boundary'', row_type = JStr ''administrative'',
      importance = JNum 1, osm_type = JStr ''relation'', osm_id = JNum 7\<rparr>"

text \<open>Two rows of the POI provider, the second without coordinates.\<close>

definition sample_fsq_results :: jsonval where
  "sample_fsq_results =
     JArr [JObj [(''fsq_id'', JStr ''a1''), (''name'', JStr ''Cafe''), (''latitude'', JNum 1),
                 (''longitude'', JNum 2), (''location'', JObj [(''address'', JStr ''1 Main St'')]),
                 (''categories'', JArr [JObj [(''name'', JStr ''Coffee'')]]), (''distance'', JNum 120)],
           JObj [(''fsq_id'', JStr ''b2''), (''name'', JStr ''Bar'')]]"

text \<open>A chained call, and the place resolver's arguments it makes.\<close>

definition sample_input :: fsq_input where
  "sample_input =
     \<lparr>place = ''Gangnam-gu'', search_query = ''restaurants'', radius_km = 3, result_limit = 10,
      minRating = None\<rparr>"

definition sample_args :: NominatimSearchArgs where
  "sample_args =
     \<lparr>query = ''Gangnam-gu'', limit = Some 1, countrycodes = None, polygon = None,
      language = None, near = None\<rparr>"

definition sample_center :: feature where
  "sample_center =
     \<lparr>geometry = Some (Polygon [[(0, 0), (3, 0), (0, 3)]]),
      properties =
        [(''source'', JStr ''nominatim''),
         (''name'', JStr ''Gangnam-gu''),
         (''category'', JStr ''search-center'')]\<rparr>"

definition sample_cafe :: feature where
  "sample_cafe =
     \<lparr>geometry = Some (Point (2, 1)),
      properties =
        [(''source'', JStr ''foursquare''),
         (''fsq_id'', JStr ''a1''),
         (''name'', JStr ''Cafe''),
         (''address'', JStr ''1 Main St''),
         (''categories'', JArr [JStr ''Coffee'']),
         (''distance'', JNum 120)]\<rparr>"

text \<open>The cache after a first call that resolved the sample place.\<close>

definition sample_cache :: "ToolResult cache" where
  "sample_cache =
     [(''k'', \<lparr>cached = Ok [nominatim_feature sample_polygon_row] SrcNominatim, expires = 600000\<rparr>)]"

text \<open>A feature with a numeric rating.\<close>

definition sample_rated :: "real \<Rightarrow> feature" where
  "sample_rated r =
     \<lparr>geometry = Some (Point (0, 0)),
      properties = [(''source'', JStr ''foursquare''), (''rating'', JNum r)]\<rparr>"

text \<open>
  The place resolver called with the one-character query "a" and nothing else, the key
  \<^verbatim>\<open>JSON.stringify\<close> gives these arguments, and the failure of the validation.
\<close>

definition sample_short_args :: NominatimSearchArgs where
  "sample_short_args =
     \<lparr>query = ''a'', limit = None, countrycodes = None, polygon = None,
      language = None, near = None\<rparr>"

definition sample_key :: string where
  \<open>sample_key = ''{"q":"a","limit":5,"cc":"","poly":true,"lang":"","near":null}''\<close>

definition too_short :: ToolResult where
  "too_short = Fail ''Query too short'' None"

text \<open>
  Two POI rows without coordinates, and a loop state whose geocode cache already holds
  the first address.
\<close>

definition sample_item :: "string \<Rightarrow> TAItem" where
  "sample_item addr =
     \<lparr>location_id = Some ''1'', name = Some ''Hotel'', address = Some addr, address_obj = None,
      latitude = JNull, longitude = JNull\<rparr>"

definition sample_state :: "CacheValue cache \<Rightarrow> ta_state" where
  "sample_state C = \<lparr>features = [], geocodeCount = 0, geocodeCache = C, clock = 0, events = []\<rparr>"

definition sample_geocache :: "CacheValue cache" where
  "sample_geocache = [(''1 main st|1.000,1.000'', \<lparr>cached = (2, 1), expires = 86400000\<rparr>)]"

text \<open>Cache operations: two inserts and a read of the first.\<close>

definition sample_ops :: "nat cache_op list" where
  "sample_ops = [OpSet ''a'' 1 0 100, OpSet ''b'' 2 10 100, OpGet ''a'' 20]"

subsection \<open>Sample rings and polygons\<close>

text \<open>
  A thin triangle of area one half, whose two large products round to the same double;
  three points on one line, whose products round apart.
\<close>

definition sliver_ring :: "position list" where
  "sliver_ring = [(0, 0), (134217729, 134217730), (134217728, 134217729)]"


text \<open>
  A counter-clockwise square beside a clockwise rectangle of twice its area; the same
  square and a clockwise square of the same area. Both MultiPolygons lie in the box from
  \<open>(0, 0)\<close> to \<open>(6, 2)\<close>.
\<close>

definition opposed_polys :: "position list list list" where
  "opposed_polys = [[[(0, 0), (2, 0), (2, 2), (0, 2)]], [[(2, 0), (2, 2), (6, 2), (6, 0)]]]"

definition cancelling_polys :: "position list list list" where
  "cancelling_polys = [[[(0, 0), (2, 0), (2, 2), (0, 2)]], [[(4, 0), (4, 2), (6, 2), (6, 0)]]]"

section \<open>Rounding to the nearest double\<close>

lemma round_even_of_int: "round_even (of_int k) = k"
  by (simp add: round_even_def)

lemma floor_minus_frac:
  fixes y :: real
  assumes "y \<noteq> of_int \<lfloor>y\<rfloor>"
  shows "\<lfloor>- y\<rfloor> = - \<lfloor>y\<rfloor> - 1"
proof (rule floor_unique)
  have c: "of_int (- \<lfloor>y\<rfloor> - 1) = - of_int \<lfloor>y\<rfloor> - (1::real)" by simp
  have "y < of_int \<lfloor>y\<rfloor> + 1" by linarith
  then show "of_int (- \<lfloor>y\<rfloor> - 1) \<le> - y" unfolding c by linarith
  have "of_int \<lfloor>y\<rfloor> < y" using assms of_int_floor_le [of y] by linarith
  then show "- y < of_int (- \<lfloor>y\<rfloor> - 1) + 1" unfolding c by linarith
qed

lemma round_even_minus: "round_even (- y) = - round_even y"
proof (cases "y = of_int \<lfloor>y\<rfloor>")
  case True
  then obtain k where "y = of_int k" ..
  then show ?thesis
    by (simp add: round_even_of_int flip: of_int_minus)
next
  case False
  show ?thesis
    unfolding round_even_def Let_def floor_minus_frac [OF False] by auto
qed

lemma round_even_bounds: "\<lfloor>y\<rfloor> \<le> round_even y \<and> round_even y \<le> \<lfloor>y\<rfloor> + 1"
  by (simp add: round_even_def Let_def)

lemma ulp_pos: "0 < ulp x"
  by (simp add: ulp_def)

lemma ulp_minus: "ulp (- x) = ulp x"
  by (simp add: ulp_def)

lemma rnd_zero: "rnd 0 = 0"
  by (simp add: rnd_def round_even_def)

lemma rnd_minus: "rnd (- x) = - rnd x"
  by (simp add: rnd_def ulp_minus round_even_minus)

text \<open>The exponent search brackets its argument, unless it runs out of steps.\<close>

lemma expo_up_lower: "1 \<le> x \<Longrightarrow> 2 powi (expo_up n x) \<le> x"
proof (induction n arbitrary: x)
  case 0
  then show ?case by simp
next
  case (Suc n)
  show ?case
  proof (cases "x < 2")
    case True
    then show ?thesis using Suc.prems by simp
  next
    case False
    then have "2 powi (expo_up n (x / 2)) \<le> x / 2"
      using Suc.IH [of "x / 2"] by simp
    then show ?thesis using False by (simp add: power_int_add)
  qed
qed

lemma expo_up_range: "0 \<le> expo_up n x \<and> expo_up n x \<le> int n"
proof (induction n arbitrary: x)
  case 0
  show ?case by simp
next
  case (Suc n)
  show ?case using Suc [of "x / 2"] by simp
qed

lemma expo_up_upper: "expo_up n x < int n \<Longrightarrow> x < 2 powi (expo_up n x + 1)"
proof (induction n arbitrary: x)
  case 0
  then show ?case by simp
next
  case (Suc n)
  show ?case
  proof (cases "x < 2")
    case True
    then show ?thesis by simp
  next
    case False
    then have "expo_up n (x / 2) < int n" using Suc.prems by simp
    then have "x / 2 < 2 powi (expo_up n (x / 2) + 1)" by (rule Suc.IH)
    then show ?thesis using False by (simp add: power_int_add)
  qed
qed

lemma expo_down_range: "- int n \<le> expo_down n x \<and> expo_down n x \<le> 0"
proof (induction n arbitrary: x)
  case 0
  show ?case by simp
next
  case (Suc n)
  show ?case using Suc [of "2 * x"] by simp
qed

lemma expo_down_upper: "x < 2 \<Longrightarrow> x < 2 powi (expo_down n x + 1)"
proof (induction n arbitrary: x)
  case 0
  then show ?case by simp
next
  case (Suc n)
  show ?case
  proof (cases "1 \<le> x")
    case True
    then show ?thesis using Suc.prems by simp
  next
    case False
    then have "2 * x < 2 powi (expo_down n (2 * x) + 1)"
      using Suc.IH [of "2 * x"] by simp
    then show ?thesis using False by (simp add: power_int_add)
  qed
qed

lemma expo_down_lower: "- int n < expo_down n x \<Longrightarrow> 2 powi (expo_down n x) \<le> x"
proof (induction n arbitrary: x)
  case 0
  then show ?case by simp
next
  case (Suc n)
  show ?case
  proof (cases "1 \<le> x")
    case True
    then show ?thesis by simp
  next
    case False
    then have "- int n < expo_down n (2 * x)" using Suc.prems by simp
    then have "2 powi (expo_down n (2 * x)) \<le> 2 * x" by (rule Suc.IH)
    then show ?thesis using False by (simp add: power_int_diff)
  qed
qed

lemma expo_range: "- 1022 \<le> expo x \<and> expo x \<le> 1024"
  using expo_up_range [of 1024 x] expo_down_range [of 1022 x] by (simp add: expo_def)

lemma expo_lower: "- 1022 < expo x \<Longrightarrow> 2 powi (expo x) \<le> x"
  using expo_up_lower [of x 1024] expo_down_lower [of 1022 x]
  by (simp add: expo_def split: if_splits)

lemma expo_upper: "expo x < 1024 \<Longrightarrow> x < 2 powi (expo x + 1)"
  using expo_up_upper [of 1024 x] expo_down_upper [of x 1022]
  by (simp add: expo_def split: if_splits)

lemma two_powi_shift: "(2::real) ^ n * 2 powi e = 2 powi (int n + e)"
proof -
  have "(2::real) powi (int n + e) = 2 powi (int n) * 2 powi e"
    by (rule power_int_add) simp
  then show ?thesis by (simp only: power_int_of_nat)
qed

text \<open>A multiple of the spacing around it is a double: rounding leaves it alone.\<close>

lemma rnd_of_multiple:
  assumes "y = of_int m * ulp y"
  shows "rnd y = y"
proof -
  have "y / ulp y = of_int m"
    using assms ulp_pos [of y] by (metis nonzero_eq_divide_eq less_irrefl)
  then show ?thesis
    using assms by (simp add: rnd_def round_even_of_int)
qed

text \<open>
  A rounded number is a double. Rounding \<open>x\<close> in its own binade gives a multiple \<open>k\<close> of
  the spacing there; the result lies in the same binade or, when \<open>k\<close> reaches \<open>2 ^ 53\<close>,
  is the power of two that opens the next one.
\<close>

lemma rnd_idem: "rnd (rnd x) = rnd x"
proof -
  define e where "e = expo \<bar>x\<bar>"
  define k where "k = round_even (x / ulp x)"
  define y where "y = rnd x"
  define e' where "e' = expo \<bar>y\<bar>"
  define v where "v = ulp y"
  have u: "ulp x = 2 powi (e - 52)" by (simp add: ulp_def e_def)
  have v: "v = 2 powi (e' - 52)" by (simp add: v_def ulp_def e'_def)
  have y: "y = of_int k * 2 powi (e - 52)" by (simp add: y_def rnd_def k_def u)
  have "\<exists>m. y = of_int m * v"
  proof (cases "e' \<le> e")
    case True
    have "(2::real) powi (e - 52) = 2 powi (e - e') * 2 powi (e' - 52)"
      by (simp flip: power_int_add)
    also have "(2::real) powi (e - e') = of_int (2 ^ nat (e - e'))"
      using True by (simp add: power_int_def)
    finally have "y = of_int (k * 2 ^ nat (e - e')) * v"
      by (simp add: y v)
    then show ?thesis ..
  next
    case False
    then have lt: "e < e'" by simp
    have "- 1022 < e'" using lt expo_range [of "\<bar>x\<bar>"] by (simp add: e_def)
    then have lo: "2 powi e' \<le> \<bar>y\<bar>" using expo_lower [of "\<bar>y\<bar>"] by (simp add: e'_def)
    have "e < 1024" using lt expo_range [of "\<bar>y\<bar>"] by (simp add: e'_def)
    then have hi: "\<bar>x\<bar> < 2 powi (e + 1)" using expo_upper [of "\<bar>x\<bar>"] by (simp add: e_def)
    define z where "z = x / ulp x"
    have "\<bar>z\<bar> = \<bar>x\<bar> / 2 powi (e - 52)" by (simp add: z_def u)
    also have "\<dots> < 2 powi (e + 1) / 2 powi (e - 52)"
      using hi by (simp add: divide_strict_right_mono)
    also have "\<dots> = 2 ^ 53" by (simp flip: power_int_diff)
    finally have q: "\<bar>z\<bar> < 2 ^ 53" .
    have "of_int (- (2 ^ 53)) \<le> z" and "z < of_int (2 ^ 53)"
      using q by (simp_all add: abs_less_iff)
    then have "- (2 ^ 53) \<le> \<lfloor>z\<rfloor>" and "\<lfloor>z\<rfloor> < 2 ^ 53"
      by (simp_all only: le_floor_iff floor_less_iff)
    then have "\<bar>round_even z\<bar> \<le> 2 ^ 53"
      using round_even_bounds [of z] by linarith
    then have kb: "\<bar>k\<bar> \<le> 2 ^ 53"
      by (simp only: k_def z_def)
    have "\<bar>y\<bar> = of_int \<bar>k\<bar> * 2 powi (e - 52)" by (simp add: y abs_mult)
    also have "\<dots> \<le> 2 ^ 53 * 2 powi (e - 52)"
    proof (rule mult_right_mono)
      have "(of_int \<bar>k\<bar> :: real) \<le> of_int (2 ^ 53)" using kb by (simp only: of_int_le_iff)
      then show "(of_int \<bar>k\<bar> :: real) \<le> 2 ^ 53" by simp
    qed simp
    also have "\<dots> = 2 powi (e + 1)"
      using two_powi_shift [of 53 "e - 52"] by (simp add: add.commute)
    finally have up: "\<bar>y\<bar> \<le> 2 powi (e + 1)" .
    have le: "(2::real) powi e' \<le> 2 powi (e + 1)" using lo up by simp
    have "e' \<le> e + 1"
    proof (rule ccontr)
      assume "\<not> e' \<le> e + 1"
      then have "e + 1 < e'" by simp
      then have "(2::real) powi (e + 1) < 2 powi e'"
        by (rule power_int_strict_increasing) simp
      then show False using le by simp
    qed
    then have e'e: "e' = e + 1" using lt by simp
    have ay: "\<bar>y\<bar> = 2 powi (e + 1)" using lo up e'e by simp
    have "y = of_int (if 0 \<le> y then 2 ^ 52 else - (2 ^ 52)) * v"
    proof -
      have "(2::real) powi (e + 1) = 2 ^ 52 * 2 powi (e + 1 - 52)"
        using two_powi_shift [of 52 "e + 1 - 52"] by (simp add: add.commute)
      then show ?thesis using ay by (simp add: v e'e abs_if split: if_splits)
    qed
    then show ?thesis ..
  qed
  then obtain m where "y = of_int m * ulp y" unfolding v_def ..
  then have "rnd y = y" by (rule rnd_of_multiple)
  then show ?thesis by (simp add: y_def)
qed

text \<open>Evaluating a rounding at a numeral.\<close>

lemma expo_up_numeral:
  "expo_up (numeral k) x = (if x < 2 then 0 else expo_up (pred_numeral k) (x / 2) + 1)"
  by (simp add: numeral_eq_Suc)

lemma expo_down_numeral:
  "expo_down (numeral k) x = (if 1 \<le> x then 0 else expo_down (pred_numeral k) (2 * x) - 1)"
  by (simp add: numeral_eq_Suc)

lemma rnd_code: "rnd x = (if x = 0 then 0 else of_int (round_even (x / ulp x)) * ulp x)"
  by (simp add: rnd_zero) (simp add: rnd_def)

lemmas rnd_eval =
  fadd_def fsub_def fmul_def fdiv_def rnd_code ulp_def expo_def expo_up_numeral expo_down_numeral
  round_even_def Let_def

section \<open>Geometry: the two loops\<close>

text \<open>
  An edge from a point to itself adds nothing: the two products are the same double, so
  the cross term is zero, and the accumulators are only rounded again.
\<close>

lemma edge_step_self: "edge_step p p (a, b, c) = (rnd a, rnd b, rnd c)"
  by (cases p) (simp add: edge_step_def fadd_def fsub_def fmul_def rnd_zero)

lemma edge_step_rounded: "\<exists>a' b' c'. edge_step p q acc = (rnd a', rnd b', rnd c')"
  by (cases p, cases q, cases acc) (auto simp: edge_step_def fadd_def Let_def)

lemma fold_edge_step_rounded:
  "\<exists>a' b' c'. fold (\<lambda>i. edge_step (f i) (g i)) js (rnd a, rnd b, rnd c) = (rnd a', rnd b', rnd c')"
proof (induction js arbitrary: a b c)
  case Nil
  show ?case by auto
next
  case (Cons j js)
  obtain a1 b1 c1 where "edge_step (f j) (g j) (rnd a, rnd b, rnd c) = (rnd a1, rnd b1, rnd c1)"
    using edge_step_rounded by blast
  then show ?case using Cons [of a1 b1 c1] by simp
qed

text \<open>
  Closing the ring and stopping one short of its end visits the same edges, in the same
  order, as wrapping the index; a ring that arrives closed gets one more edge from the
  wrap, from its last point to its equal first point.
\<close>

lemma closed_sums_closeRing: "closed_sums (closeRing ring) = wrap_sums ring"
proof (cases "ring = []")
  case True
  then show ?thesis by (simp add: closeRing_def closed_sums_def wrap_sums_def)
next
  case False
  define n where "n = length ring"
  have n: "0 < n" using False by (simp add: n_def)
  show ?thesis
  proof (cases "hd ring = last ring")
    case True
    have lst: "ring ! (n - Suc 0) = ring ! 0"
      using True False by (simp add: n_def last_conv_nth hd_conv_nth)
    have up: "[0 ..< n] = [0 ..< n - Suc 0] @ [n - Suc 0]"
      using n by (cases n) simp_all
    have same: "fold (\<lambda>i. edge_step (ring ! i) (ring ! (Suc i mod n))) [0 ..< n - Suc 0] (0, 0, 0)
                  = fold (\<lambda>i. edge_step (ring ! i) (ring ! Suc i)) [0 ..< n - Suc 0] (0, 0, 0)"
      by (rule fold_cong) auto
    obtain a b c where
      r: "fold (\<lambda>i. edge_step (ring ! i) (ring ! Suc i)) [0 ..< n - Suc 0] (0, 0, 0)
            = (rnd a, rnd b, rnd c)"
      using fold_edge_step_rounded [of "\<lambda>i. ring ! i" "\<lambda>i. ring ! Suc i" "[0 ..< n - Suc 0]" 0 0 0]
      by (auto simp: rnd_zero)
    have "wrap_sums ring
            = edge_step (ring ! (n - Suc 0)) (ring ! 0)
                (fold (\<lambda>i. edge_step (ring ! i) (ring ! (Suc i mod n))) [0 ..< n - Suc 0] (0, 0, 0))"
      unfolding wrap_sums_def n_def [symmetric] using n by (subst up) simp
    also have "\<dots> = (rnd a, rnd b, rnd c)"
      by (simp add: same r lst edge_step_self rnd_idem)
    finally show ?thesis
      using True False by (simp add: closeRing_def closed_sums_def r [unfolded n_def])
  next
    case False
    have "fold (\<lambda>i. edge_step ((ring @ [hd ring]) ! i) ((ring @ [hd ring]) ! Suc i)) [0 ..< n] (0, 0, 0)
            = fold (\<lambda>i. edge_step (ring ! i) (ring ! (Suc i mod n))) [0 ..< n] (0, 0, 0)"
    proof (rule fold_cong)
      fix i
      assume "i \<in> set [0 ..< n]"
      then have i: "i < n" by simp
      have "(ring @ [hd ring]) ! Suc i = ring ! (Suc i mod n)"
      proof (cases "Suc i < n")
        case True
        then show ?thesis by (simp add: nth_append n_def)
      next
        case False
        then have "Suc i = n" using i by simp
        then show ?thesis
          using \<open>ring \<noteq> []\<close> by (simp add: nth_append n_def hd_conv_nth)
      qed
      then show "edge_step ((ring @ [hd ring]) ! i) ((ring @ [hd ring]) ! Suc i)
                   = edge_step (ring ! i) (ring ! (Suc i mod n))"
        using i by (simp add: nth_append n_def)
    qed simp_all
    then show ?thesis
      using False \<open>ring \<noteq> []\<close> by (simp add: closeRing_def closed_sums_def wrap_sums_def n_def)
  qed
qed

lemma fold_edge_step_fst:
  "fst (fold (\<lambda>i. edge_step (f i) (g i)) js acc)
     = foldl (\<lambda>s i. fadd s (cross_fl (f i) (g i))) (fst acc) js"
proof (induction js arbitrary: acc)
  case Nil
  show ?case by simp
next
  case (Cons j js)
  have "fst (edge_step (f j) (g j) acc) = fadd (fst acc) (cross_fl (f j) (g j))"
    by (cases "f j", cases "g j", cases acc) (simp add: edge_step_def cross_fl_def Let_def)
  then show ?case by (simp add: Cons)
qed

lemma wrap_sums_shoelace: "fst (wrap_sums ring) = shoelace_fl ring"
  by (simp add: wrap_sums_def shoelace_fl_def fold_edge_step_fst)

lemma ringCentroid_sums:
  "ringCentroid ring =
     (case wrap_sums ring of (a, sx, sy) \<Rightarrow>
        if a = 0 then None
        else Some \<lparr>cx = fdiv sx (fmul 3 a), cy = fdiv sy (fmul 3 a), area = fdiv a 2\<rparr>)"
  by (simp add: ringCentroid_def closed_sums_closeRing)

lemma ringCentroid_None_iff: "ringCentroid ring = None \<longleftrightarrow> shoelace_fl ring = 0"
  by (simp add: ringCentroid_sums case_prod_unfold flip: wrap_sums_shoelace)

text \<open>
  A ring of fewer than three points has the computed sum zero: the one edge of a single
  point is an edge to itself, and the two edges of a pair give opposite cross terms,
  which cancel exactly.
\<close>

lemma cross_fl_swap: "cross_fl q p = - cross_fl p q"
  unfolding cross_fl_def fsub_def
  using rnd_minus [of "fmul (fst p) (snd q) - fmul (fst q) (snd p)"] by simp

lemma shoelace_fl_short:
  assumes "length ring < 3"
  shows "shoelace_fl ring = 0"
proof -
  consider "ring = []" | p where "ring = [p]" | p q where "ring = [p, q]"
  proof (cases ring)
    case Nil
    then show ?thesis using that by simp
  next
    case (Cons p r1)
    show ?thesis
    proof (cases r1)
      case Nil
      then show ?thesis using Cons that by simp
    next
      case (Cons q r2)
      then have "r2 = []" using assms \<open>ring = p # r1\<close> by simp
      then show ?thesis using Cons \<open>ring = p # r1\<close> that by simp
    qed
  qed
  then show ?thesis
  proof cases
    case 1
    then show ?thesis by (simp add: shoelace_fl_def)
  next
    case 2
    have "cross_fl p p = 0" by (simp add: cross_fl_def fsub_def rnd_zero)
    then show ?thesis using 2 by (simp add: shoelace_fl_def fadd_def rnd_zero)
  next
    case 3
    have "shoelace_fl [p, q] = fadd (fadd 0 (cross_fl p q)) (cross_fl q p)"
      by (simp add: shoelace_fl_def numeral_2_eq_2)
    also have "fadd 0 (cross_fl p q) = cross_fl p q"
      by (simp add: fadd_def cross_fl_def fsub_def rnd_idem)
    also have "fadd (cross_fl p q) (cross_fl q p) = 0"
      by (simp add: cross_fl_swap [of q p] fadd_def rnd_zero)
    finally show ?thesis using 3 by simp
  qed
qed

lemma coord_sum_foldl:
  "foldl (\<lambda>(ax, ay) (x, y). (fadd ax x, fadd ay y)) (a, b) pts
     = (foldl fadd a (map fst pts), foldl fadd b (map snd pts))"
  by (induction pts arbitrary: a b) (auto simp: case_prod_unfold)

lemma average_mean: "average pts = mean_fl pts"
  by (simp add: average_def mean_fl_def sum_fl_def coord_sum_def coord_sum_foldl)

lemma shoelace_3: "shoelace [p, q, r] = cross p q + cross q r + cross r p"
  by (simp add: shoelace_def lessThan_Suc)

text \<open>The loop on a ring of three points, edge by edge.\<close>

lemma edge_step_cross:
  "edge_step p q (a, b, c) =
     (fadd a (cross_fl p q), fadd b (fmul (fadd (fst p) (fst q)) (cross_fl p q)),
      fadd c (fmul (fadd (snd p) (snd q)) (cross_fl p q)))"
  by (cases p, cases q) (simp add: edge_step_def cross_fl_def Let_def)


text \<open>
  The thin triangle: the products \<open>134217729 * 134217729\<close> and
  \<open>134217728 * 134217730\<close> differ by one and round to the same double, so every
  cross term is zero.
\<close>

lemma sliver_products:
  "fmul 134217729 134217729 = 18014398777917440 \<and> fmul 134217728 134217730 = 18014398777917440"
  by (simp add: rnd_eval)

lemma sliver_sums: "wrap_sums sliver_ring = (0, 0, 0)"
  by (simp add: wrap_sums_def edge_step_def sliver_ring_def rnd_eval)

lemma sliver_mean:
  "mean_fl sliver_ring = (6004799525530283 / 67108864, 6004799570269525 / 67108864)"
  by (simp add: sliver_ring_def mean_fl_def sum_fl_def rnd_eval)


text \<open>
  Claim C10. On a Polygon whose outer ring has at least three points, coordinates in
  range, and a shoelace sum that, as the doubles compute it, is not zero,
  \<open>geometryCentroid\<close> (which closes the ring before summing) and the chained resolver's
  \<open>centroid\<close> (which wraps the index modulo the ring length) return the same
  coordinates, for every ring, closed beforehand or not. The sum is the one both
  functions compute and compare with zero: \<open>twiceArea\<close> in \<open>ringCentroid\<close>, \<open>a\<close> in
  \<open>centroid\<close>.
\<close>

theorem centroid_implementations_agree:
  assumes "3 \<le> length ring" and "in_range ring" and "shoelace_fl ring \<noteq> 0"
  shows "geometryCentroid (Polygon (ring # holes)) = centroid (Some (Polygon (ring # holes)))
    \<and> fst (closed_sums (closeRing ring)) = shoelace_fl ring
    \<and> fst (wrap_sums ring) = shoelace_fl ring"
proof -
  obtain a sx sy where w: "wrap_sums ring = (a, sx, sy)"
    by (cases "wrap_sums ring") auto
  have a: "a \<noteq> 0"
    using assms(3) w wrap_sums_shoelace [of ring] by simp
  have ne: "ring \<noteq> []" using assms(1) by auto
  have "geometryCentroid (Polygon (ring # holes)) = Some (fdiv sx (fmul 3 a), fdiv sy (fmul 3 a))"
    using a ne by (simp add: ringCentroid_sums w)
  moreover have "centroid (Some (Polygon (ring # holes))) = Some (fdiv sx (fmul 3 a), fdiv sy (fmul 3 a))"
    using a assms(1) by (simp add: outer_or_empty_def w)
  ultimately show ?thesis
    by (simp add: closed_sums_closeRing wrap_sums_shoelace del: centroid.simps geometryCentroid.simps)
qed

theorem centroid_implementations_agree_witness:
  "3 \<le> length ([(0, 0), (4, 0), (0, 3), (0, 0)] :: position list)
   \<and> in_range [(0, 0), (4, 0), (0, 3), (0, 0)]
   \<and> shoelace_fl [(0, 0), (4, 0), (0, 3), (0, 0)] = 12
   \<and> geometryCentroid (Polygon [[(0, 0), (4, 0), (0, 3), (0, 0)]])
        = Some (6004799503160661 / 4503599627370496, 1)
   \<and> centroid (Some (Polygon [[(0, 0), (4, 0), (0, 3), (0, 0)]]))
        = Some (6004799503160661 / 4503599627370496, 1)
   \<and> 3 \<le> length ([(0, 0), (3, 0), (0, 3)] :: position list)
   \<and> in_range [(0, 0), (3, 0), (0, 3)]
   \<and> shoelace_fl [(0, 0), (3, 0), (0, 3)] = 9
   \<and> geometryCentroid (Polygon [[(0, 0), (3, 0), (0, 3)]]) = Some (1, 1)
   \<and> centroid (Some (Polygon [[(0, 0), (3, 0), (0, 3)]])) = Some (1, 1)"
proof -
  have l': "3 \<le> length ([(0, 0), (3, 0), (0, 3)] :: position list)" by simp
  have w': "wrap_sums [(0, 0), (3, 0), (0, 3)] = (9, 27, 27)"
    by (simp add: wrap_sums_def edge_step_def rnd_eval)
  have s': "shoelace_fl [(0, 0), (3, 0), (0, 3)] = 9"
    by (simp add: w' flip: wrap_sums_shoelace)
  have c': "centroid (Some (Polygon [[(0, 0), (3, 0), (0, 3)]])) = Some (1, 1)"
    by (simp add: outer_or_empty_def w' rnd_eval)
  have l: "3 \<le> length ([(0, 0), (4, 0), (0, 3), (0, 0)] :: position list)" by simp
  have w: "wrap_sums [(0, 0), (4, 0), (0, 3), (0, 0)] = (12, 48, 36)"
    by (simp add: wrap_sums_def edge_step_def rnd_eval)
  have s: "shoelace_fl [(0, 0), (4, 0), (0, 3), (0, 0)] = 12"
    by (simp add: w flip: wrap_sums_shoelace)
  have c: "centroid (Some (Polygon [[(0, 0), (4, 0), (0, 3), (0, 0)]]))
             = Some (6004799503160661 / 4503599627370496, 1)"
    by (simp add: outer_or_empty_def w rnd_eval)
  have n: "shoelace_fl [(0, 0), (4, 0), (0, 3), (0, 0)] \<noteq> 0"
    and n': "shoelace_fl [(0, 0), (3, 0), (0, 3)] \<noteq> 0"
    by (simp_all add: s s')
  have r: "in_range [(0, 0), (4, 0), (0, 3), (0, 0)]"
    and r': "in_range [(0, 0), (3, 0), (0, 3)]"
    by (simp_all add: in_range_def)
  show ?thesis
    using centroid_implementations_agree [OF l r n, of "[]"]
      centroid_implementations_agree [OF l' r' n', of "[]"] s c s' c' r r'
    by (simp del: centroid.simps geometryCentroid.simps)
qed

text \<open>
  The exact shoelace sum of \<open>sliver_ring\<close> is 1, but the two products of its one
  non-trivial edge round to the same double, so both functions compute the sum 0 and fall
  back: \<open>centroid\<close> to the first point, \<open>geometryCentroid\<close> to the mean of the ring.
\<close>

theorem centroid_implementations_counterexample:
  "3 \<le> length sliver_ring
   \<and> in_range sliver_ring
   \<and> shoelace sliver_ring = 1
   \<and> shoelace_fl sliver_ring = 0
   \<and> centroid (Some (Polygon [sliver_ring])) = Some (0, 0)
   \<and> geometryCentroid (Polygon [sliver_ring])
        = Some (6004799525530283 / 67108864, 6004799570269525 / 67108864)
   \<and> geometryCentroid (Polygon [sliver_ring]) \<noteq> centroid (Some (Polygon [sliver_ring]))"
proof -
  have e: "shoelace sliver_ring = 1"
    by (simp add: shoelace_3 cross_def sliver_ring_def)
  have s: "shoelace_fl sliver_ring = 0"
    by (simp add: sliver_sums flip: wrap_sums_shoelace)
  have c: "centroid (Some (Polygon [sliver_ring])) = Some (0, 0)"
    by (simp add: outer_or_empty_def sliver_sums first_or_null_def) (simp add: sliver_ring_def)
  have n: "ringCentroid sliver_ring = None"
    by (simp add: ringCentroid_None_iff s)
  have g: "geometryCentroid (Polygon [sliver_ring])
             = Some (6004799525530283 / 67108864, 6004799570269525 / 67108864)"
    by (simp add: n average_mean sliver_mean) (simp add: sliver_ring_def)
  have r: "in_range sliver_ring"
    by (simp add: in_range_def sliver_ring_def)
  show ?thesis
    using e s c g r by (simp del: centroid.simps geometryCentroid.simps) (simp add: sliver_ring_def)
qed





section \<open>Geometry: MultiPolygon\<close>

lemma ringCentroid_Nil: "ringCentroid [] = None"
  by (simp add: ringCentroid_None_iff shoelace_fl_short)

lemma outer_centroids_Cons:
  "outer_centroids (poly # polys) =
     (case ringCentroid (outer_or_empty poly) of
        None \<Rightarrow> outer_centroids polys
      | Some rc \<Rightarrow> rc # outer_centroids polys)"
  by (simp add: outer_centroids_def List.map_filter_simps split: option.splits)

lemma multi_step_eq:
  "multi_step poly (a, b, c) =
     (case ringCentroid (outer_or_empty poly) of
        None \<Rightarrow> (a, b, c)
      | Some rc \<Rightarrow> (fadd a (fmul (cx rc) \<bar>area rc\<bar>), fadd b (fmul (cy rc) \<bar>area rc\<bar>), fadd c \<bar>area rc\<bar>))"
  by (cases poly) (auto simp: multi_step_def outer_or_empty_def ringCentroid_Nil split: option.splits)

lemma fold_multi_step:
  "fold multi_step polys (a, b, c) =
     (foldl fadd a (map (\<lambda>rc. fmul (cx rc) \<bar>area rc\<bar>) (outer_centroids polys)),
      foldl fadd b (map (\<lambda>rc. fmul (cy rc) \<bar>area rc\<bar>) (outer_centroids polys)),
      foldl fadd c (map (\<lambda>rc. \<bar>area rc\<bar>) (outer_centroids polys)))"
proof (induction polys arbitrary: a b c)
  case Nil
  show ?case by (simp add: outer_centroids_def List.map_filter_simps)
next
  case (Cons poly polys)
  show ?case
    by (cases "ringCentroid (outer_or_empty poly)")
       (simp_all add: multi_step_eq outer_centroids_Cons Cons.IH)
qed

lemma geometryCentroid_MultiPolygon:
  "geometryCentroid (MultiPolygon polys) =
     (if 0 < total_abs_area (outer_centroids polys)
      then Some (abs_weighted_mean (outer_centroids polys))
      else if concat (concat polys) = [] then None
      else Some (mean_fl (concat (concat polys))))"
  by (simp add: fold_multi_step total_abs_area_def abs_weighted_mean_def sum_fl_def average_mean
        Let_def)

text \<open>The loop on a ring of four points, edge by edge.\<close>

lemma wrap_sums_4:
  "wrap_sums [p, q, r, s] =
     edge_step s p (edge_step r s (edge_step q r (edge_step p q (0, 0, 0))))"
  by (simp add: wrap_sums_def upt_rec)

text \<open>
  Claim C2. \<open>geometryCentroid\<close> computes what the claim says, in doubles: the average
  of the outer-ring centroids weighted by the absolute value of each ring's area when
  the total of those absolute areas is positive, otherwise the mean of every coordinate
  of every ring (nothing if there is none). The chained resolver's \<open>centroid\<close> adds the
  signed sums of the rings instead, without the absolute value. On \<open>opposed_polys\<close>, two
  rings of opposite orientation inside the box from \<open>(0, 0)\<close> to \<open>(6, 2)\<close>, it returns
  \<open>(7, 1)\<close>, outside the box, where the weighted average is \<open>(3, 1)\<close>. On
  \<open>cancelling_polys\<close> the signed sums cancel and it returns the first coordinate
  \<open>(0, 0)\<close>, although the total area is 8 and the weighted average is \<open>(3, 1)\<close>.
\<close>

theorem multipolygon_signed_weights:
  "outer_centroids opposed_polys
        = [\<lparr>cx = 1, cy = 1, area = 4\<rparr>, \<lparr>cx = 4, cy = 1, area = - 8\<rparr>]
   \<and> total_abs_area (outer_centroids opposed_polys) = 12
   \<and> abs_weighted_mean (outer_centroids opposed_polys) = (3, 1)
   \<and> geometryCentroid (MultiPolygon opposed_polys) = Some (3, 1)
   \<and> fold poly_step opposed_polys (0, 0, 0) = (- 8, - 168, - 24)
   \<and> centroid (Some (MultiPolygon opposed_polys)) = Some (7, 1)
   \<and> outer_centroids cancelling_polys
        = [\<lparr>cx = 1, cy = 1, area = 4\<rparr>, \<lparr>cx = 5, cy = 1, area = - 4\<rparr>]
   \<and> total_abs_area (outer_centroids cancelling_polys) = 8
   \<and> abs_weighted_mean (outer_centroids cancelling_polys) = (3, 1)
   \<and> geometryCentroid (MultiPolygon cancelling_polys) = Some (3, 1)
   \<and> fold poly_step cancelling_polys (0, 0, 0) = (0, - 96, 0)
   \<and> centroid (Some (MultiPolygon cancelling_polys)) = Some (0, 0)"
proof -
  have w1: "wrap_sums [(0, 0), (2, 0), (2, 2), (0, 2)] = (8, 24, 24)"
    and w2: "wrap_sums [(2, 0), (2, 2), (6, 2), (6, 0)] = (- 16, - 192, - 48)"
    and w3: "wrap_sums [(4, 0), (4, 2), (6, 2), (6, 0)] = (- 8, - 120, - 24)"
    by (simp_all add: wrap_sums_4 edge_step_cross cross_fl_def rnd_eval)
  have r1: "ringCentroid [(0, 0), (2, 0), (2, 2), (0, 2)] = Some \<lparr>cx = 1, cy = 1, area = 4\<rparr>"
    and r2: "ringCentroid [(2, 0), (2, 2), (6, 2), (6, 0)] = Some \<lparr>cx = 4, cy = 1, area = - 8\<rparr>"
    and r3: "ringCentroid [(4, 0), (4, 2), (6, 2), (6, 0)] = Some \<lparr>cx = 5, cy = 1, area = - 4\<rparr>"
    by (simp_all add: ringCentroid_sums w1 w2 w3 rnd_eval)
  have o1: "outer_centroids opposed_polys
              = [\<lparr>cx = 1, cy = 1, area = 4\<rparr>, \<lparr>cx = 4, cy = 1, area = - 8\<rparr>]"
    by (simp add: outer_centroids_def List.map_filter_simps outer_or_empty_def opposed_polys_def r1 r2)
  have o2: "outer_centroids cancelling_polys
              = [\<lparr>cx = 1, cy = 1, area = 4\<rparr>, \<lparr>cx = 5, cy = 1, area = - 4\<rparr>]"
    by (simp add: outer_centroids_def List.map_filter_simps outer_or_empty_def cancelling_polys_def
          r1 r3)
  have t1: "total_abs_area (outer_centroids opposed_polys) = 12"
    and t2: "total_abs_area (outer_centroids cancelling_polys) = 8"
    by (simp_all add: o1 o2 total_abs_area_def sum_fl_def rnd_eval)
  have a1: "abs_weighted_mean (outer_centroids opposed_polys) = (3, 1)"
    and a2: "abs_weighted_mean (outer_centroids cancelling_polys) = (3, 1)"
    by (simp_all add: abs_weighted_mean_def t1 t2) (simp_all add: o1 o2 sum_fl_def rnd_eval)
  have g1: "geometryCentroid (MultiPolygon opposed_polys) = Some (3, 1)"
    and g2: "geometryCentroid (MultiPolygon cancelling_polys) = Some (3, 1)"
    by (simp_all add: geometryCentroid_MultiPolygon t1 t2 a1 a2 del: geometryCentroid.simps)
  have p1: "fold poly_step opposed_polys (0, 0, 0) = (- 8, - 168, - 24)"
    by (simp add: opposed_polys_def poly_step_def outer_or_empty_def w1 w2) (simp add: rnd_eval)
  have p2: "fold poly_step cancelling_polys (0, 0, 0) = (0, - 96, 0)"
    by (simp add: cancelling_polys_def poly_step_def outer_or_empty_def w1 w3) (simp add: rnd_eval)
  have c1: "centroid (Some (MultiPolygon opposed_polys)) = Some (7, 1)"
    by (simp add: p1) (simp add: rnd_eval)
  have c2: "centroid (Some (MultiPolygon cancelling_polys)) = Some (0, 0)"
    by (simp add: p2 first_or_null_def outer_or_empty_def) (simp add: cancelling_polys_def)
  show ?thesis
    using o1 o2 t1 t2 a1 a2 g1 g2 p1 p2 c1 c2
    by (simp del: centroid.simps geometryCentroid.simps)
qed

section \<open>Result normalizers: what a returned feature looks like\<close>

lemma nominatim_feature_props:
  "geometry (nominatim_feature it) \<noteq> None"
  "map fst (properties (nominatim_feature it))
     = [''display_name'', ''category'', ''type'', ''importance'', ''osm_type'', ''osm_id'']"
  by (simp_all add: nominatim_feature_def)

lemma toFeatureCollection_Returns:
  "toFeatureCollection items = Returns fs \<Longrightarrow>
     fs = map nominatim_feature (map the items) \<and> None \<notin> set items"
  by (induction items arbitrary: fs rule: toFeatureCollection.induct)
     (auto split: outcome.splits)

lemma fsq_row_Some:
  assumes "fsq_row r = Returns (Some f)"
  shows "\<exists>lo la fsq_id name address categories distance.
           f = \<lparr>geometry = Some (Point (lo, la)),
                properties =
                  [(''source'', JStr ''foursquare''),
                   (''fsq_id'', fsq_id),
                   (''name'', name),
                   (''address'', address),
                   (''categories'', categories),
                   (''distance'', distance)]\<rparr>"
  using assms unfolding fsq_row_def
  by (auto split: outcome.splits jsonval.splits)

lemma fsq_rows_Returns:
  "fsq_rows rs = Returns fs \<Longrightarrow> f \<in> set fs \<Longrightarrow> \<exists>r \<in> set rs. fsq_row r = Returns (Some f)"
proof (induction rs arbitrary: fs)
  case Nil
  then show ?case by simp
next
  case (Cons r rs)
  show ?case
  proof (cases "fsq_row r")
    case Throws
    then show ?thesis using Cons.prems by simp
  next
    case (Returns o1)
    show ?thesis
    proof (cases o1)
      case None
      then show ?thesis using Cons Returns by auto
    next
      case (Some g)
      then obtain gs where gs: "fsq_rows rs = Returns gs" "fs = g # gs"
        using Cons.prems(1) Returns by (auto split: outcome.splits)
      show ?thesis
      proof (cases "f = g")
        case True
        then show ?thesis using Returns Some by auto
      next
        case False
        then have "f \<in> set gs" using Cons.prems(2) gs by simp
        then show ?thesis using Cons.IH [OF gs(1)] by auto
      qed
    qed
  qed
qed

lemma fsqResultsToGeoJSON_Returns:
  assumes "fsqResultsToGeoJSON results = Returns fs" and "f \<in> set fs"
  shows "\<exists>r. fsq_row r = Returns (Some f)"
  using assms unfolding fsqResultsToGeoJSON_def
  by (auto split: jsonval.splits dest: fsq_rows_Returns)

lemma fsq_feature_facts:
  assumes "fsqResultsToGeoJSON results = Returns fs" and "f \<in> set fs"
  shows "geometry f \<noteq> None"
    and "get_prop (properties f) ''source'' = JStr ''foursquare''"
    and "get_prop (properties f) ''rating'' = JUndefined"
proof -
  obtain r where "fsq_row r = Returns (Some f)"
    using fsqResultsToGeoJSON_Returns [OF assms] by blast
  then obtain lo la fsq_id name address categories distance where
    f: "f = \<lparr>geometry = Some (Point (lo, la)),
                properties =
                  [(''source'', JStr ''foursquare''),
                   (''fsq_id'', fsq_id),
                   (''name'', name),
                   (''address'', address),
                   (''categories'', categories),
                   (''distance'', distance)]\<rparr>"
    using fsq_row_Some by blast
  show "geometry f \<noteq> None" by (simp add: f)
  show "get_prop (properties f) ''source'' = JStr ''foursquare''" by (simp add: f get_prop_def)
  show "get_prop (properties f) ''rating'' = JUndefined" by (simp add: f get_prop_def)
qed

section \<open>The source property\<close>

lemmas nominatim_eval =
  runNominatimSearch_def cacheKey_def cacheGet_def cache_get_def cacheSet_def cache_set_def evict_first_def
  CACHE_MAX_def CACHE_TTL_MS_def map_set_def map_delete_def js_trim_def js_whitespace_def Let_def

lemma sample_fsq_features:
  "fsqResultsToGeoJSON sample_fsq_results =
     Returns [\<lparr>geometry = Some (Point (2, 1)),
               properties =
                 [(''source'', JStr ''foursquare''),
                  (''fsq_id'', JStr ''a1''),
                  (''name'', JStr ''Cafe''),
                  (''address'', JStr ''1 Main St''),
                  (''categories'', JArr [JStr ''Coffee'']),
                  (''distance'', JNum 120)]\<rparr>]"
  by (simp add: sample_fsq_results_def fsqResultsToGeoJSON_def fsq_row_def js_get_def get_prop_def
        fsq_categories_def)

text \<open>
  Claim C5, as the code has it. Every feature the Foursquare normalizer returns carries
  the property \<open>source\<close> with the provider's name. The Nominatim normalizer writes exactly
  the six properties display_name, category, type, importance, osm_type and osm_id, so
  its features have no \<open>source\<close> property; the provider of a fresh geocoder answer is
  named on the enclosing result instead.
\<close>

theorem normalizer_source_property:
  "(fsqResultsToGeoJSON results = Returns fs \<longrightarrow>
      (\<forall>f \<in> set fs. get_prop (properties f) ''source'' = JStr ''foursquare''))
   \<and> (toFeatureCollection items = Returns fs' \<longrightarrow>
        (\<forall>f \<in> set fs'.
           map fst (properties f)
             = [''display_name'', ''category'', ''type'', ''importance'', ''osm_type'', ''osm_id'']
           \<and> get_prop (properties f) ''source'' = JUndefined))
   \<and> (runNominatimSearch stringify fetch t_get t_set args C = (C', [req], Returns (Ok fc src)) \<longrightarrow>
        src = SrcNominatim)"
proof (intro conjI impI ballI)
  fix f assume "fsqResultsToGeoJSON results = Returns fs" "f \<in> set fs"
  then show "get_prop (properties f) ''source'' = JStr ''foursquare''"
    by (rule fsq_feature_facts(2))
next
  fix f assume a: "toFeatureCollection items = Returns fs'" "f \<in> set fs'"
  then obtain it where f: "f = nominatim_feature it"
    using toFeatureCollection_Returns [OF a(1)] by auto
  show "map fst (properties f)
          = [''display_name'', ''category'', ''type'', ''importance'', ''osm_type'', ''osm_id'']"
    by (simp add: f nominatim_feature_def)
  show "get_prop (properties f) ''source'' = JUndefined"
    by (simp add: f nominatim_feature_def get_prop_def)
next
  assume "runNominatimSearch stringify fetch t_get t_set args C = (C', [req], Returns (Ok fc src))"
  then show "src = SrcNominatim"
    unfolding runNominatimSearch_def Let_def
    by (auto split: prod.splits option.splits if_splits nominatim_response.splits outcome.splits)
qed

theorem normalizer_source_property_witness:
  "fsqResultsToGeoJSON sample_fsq_results
     = Returns [\<lparr>geometry = Some (Point (2, 1)),
               properties =
                 [(''source'', JStr ''foursquare''),
                  (''fsq_id'', JStr ''a1''),
                  (''name'', JStr ''Cafe''),
                  (''address'', JStr ''1 Main St''),
                  (''categories'', JArr [JStr ''Coffee'']),
                  (''distance'', JNum 120)]\<rparr>]
   \<and> toFeatureCollection [Some sample_point_row] = Returns [nominatim_feature sample_point_row]
   \<and> get_prop (properties (nominatim_feature sample_point_row)) ''source'' = JUndefined
   \<and> runNominatimSearch (\<lambda>a. ''k'') (\<lambda>a. JsonValue (Some [Some sample_point_row])) 0 0
        \<lparr>query = ''Jurong Point'', limit = Some 1, countrycodes = None, polygon = None,
         language = None, near = None\<rparr> []
       = ([(''k'', \<lparr>cached = Ok [nominatim_feature sample_point_row] SrcNominatim, expires = 600000\<rparr>)],
          [\<lparr>query = ''Jurong Point'', limit = Some 1, countrycodes = None, polygon = None,
            language = None, near = None\<rparr>],
          Returns (Ok [nominatim_feature sample_point_row] SrcNominatim))"
proof -
  have r: "runNominatimSearch (\<lambda>a. ''k'') (\<lambda>a. JsonValue (Some [Some sample_point_row])) 0 0
        \<lparr>query = ''Jurong Point'', limit = Some 1, countrycodes = None, polygon = None,
         language = None, near = None\<rparr> []
       = ([(''k'', \<lparr>cached = Ok [nominatim_feature sample_point_row] SrcNominatim, expires = 600000\<rparr>)],
          [\<lparr>query = ''Jurong Point'', limit = Some 1, countrycodes = None, polygon = None,
            language = None, near = None\<rparr>],
          Returns (Ok [nominatim_feature sample_point_row] SrcNominatim))"
    by (simp add: nominatim_eval)
  have t: "toFeatureCollection [Some sample_point_row] = Returns [nominatim_feature sample_point_row]"
    by simp
  show ?thesis
    using normalizer_source_property
      [of sample_fsq_results _ "[Some sample_point_row]" "[nominatim_feature sample_point_row]"
          "\<lambda>a. ''k''" "\<lambda>a. JsonValue (Some [Some sample_point_row])" 0 0
          "\<lparr>query = ''Jurong Point'', limit = Some 1, countrycodes = None, polygon = None,
            language = None, near = None\<rparr>" "[]"]
      sample_fsq_features r t
    by simp
qed

theorem normalizer_source_counterexample:
  "toFeatureCollection [Some sample_point_row] = Returns [nominatim_feature sample_point_row]
   \<and> map_of (properties (nominatim_feature sample_point_row)) ''source'' = None"
  by (simp add: nominatim_feature_def)

section \<open>The chained resolver\<close>

lemma centroid_needs_geometry: "centroid g = Some c \<Longrightarrow> g \<noteq> None"
  by (cases g) auto

lemma foursquare_success:
  assumes "foursquareByPlaceTool stringify fetch t_get t_set api_key placeSearch to_number inp C
             = (C', Returns (Ok fc src))"
  shows "\<exists>f0 rest nsrc c results pois reqs.
           runNominatimSearch stringify fetch t_get t_set
             \<lparr>query = place inp, limit = Some 1, countrycodes = None, polygon = None,
              language = None, near = None\<rparr> C = (C', reqs, Returns (Ok (f0 # rest) nsrc))
         \<and> geometry f0 \<noteq> None
         \<and> centroid (geometry f0) = Some c
         \<and> fsqSearch api_key placeSearch
              \<lparr>ll = (snd c, fst c), fsq_query = Some (search_query inp),
               radiusMeters = Some (js_round (radius_km inp * 1000)),
               fsq_limit = Some (result_limit inp)\<rparr> = FsqOk results
         \<and> fsqResultsToGeoJSON results = Returns pois
         \<and> fc = search_center (place inp) (geometry f0) # rating_filter to_number (minRating inp) pois
         \<and> src = SrcFsq"
proof -
  let ?args = "\<lparr>query = place inp, limit = Some 1, countrycodes = None, polygon = None,
              language = None, near = None\<rparr>"
  obtain C1 reqs out where r: "runNominatimSearch stringify fetch t_get t_set ?args C = (C1, reqs, out)"
    by (cases "runNominatimSearch stringify fetch t_get t_set ?args C") auto
  show ?thesis
    using assms unfolding foursquareByPlaceTool_def r
    by (auto simp: Let_def dest: centroid_needs_geometry
          split: outcome.splits ToolResult.splits list.splits option.splits fsq_result.splits
                 prod.splits)
qed

section \<open>The cache keeps results whose features have geometries\<close>

lemma cache_ok_delete: "cache_ok C \<Longrightarrow> cache_ok (map_delete k C)"
  by (simp add: cache_ok_def map_delete_def list_all_iff)

lemma cache_ok_evict: "cache_ok C \<Longrightarrow> cache_ok (evict_first C)"
  by (auto simp: evict_first_def cache_ok_delete split: list.splits)

lemma cache_ok_set: "cache_ok C \<Longrightarrow> result_ok (cached e) \<Longrightarrow> cache_ok (map_set k e C)"
  by (auto simp: cache_ok_def map_set_def list_all_iff split: if_splits)

lemma cache_ok_cacheSet: "cache_ok C \<Longrightarrow> result_ok v \<Longrightarrow> cache_ok (cacheSet now k v ttl C)"
  by (simp add: cacheSet_def cache_set_def cache_ok_set cache_ok_evict)

lemma cache_ok_cacheGet:
  assumes "cache_ok C" and "cacheGet now k C = (C1, r)"
  shows "cache_ok C1" and "r = Some hit \<Longrightarrow> result_ok hit"
proof -
  show "cache_ok C1"
    using assms by (auto simp: cacheGet_def cache_get_def cache_ok_delete split: option.splits if_splits)
  show "result_ok hit" if "r = Some hit"
  proof -
    from assms(2) that obtain e where e: "map_of C k = Some e" "cached e = hit"
      by (auto simp: cacheGet_def cache_get_def split: option.splits if_splits)
    then have "(k, e) \<in> set C" by (simp add: map_of_SomeD)
    then show ?thesis using assms(1) e by (auto simp: cache_ok_def list_all_iff)
  qed
qed

lemma toFeatureCollection_ok:
  "toFeatureCollection items = Returns fc \<Longrightarrow> result_ok (Ok fc src)"
  by (auto simp: list_all_iff nominatim_feature_def dest!: toFeatureCollection_Returns)

lemma runNominatimSearch_hit:
  "cacheGet t_get (cacheKey stringify args) C = (C1, Some hit) \<Longrightarrow>
   runNominatimSearch stringify fetch t_get t_set args C = (C1, [], Returns hit)"
  by (simp add: runNominatimSearch_def)

lemma runNominatimSearch_short:
  "cacheGet t_get (cacheKey stringify args) C = (C1, None) \<Longrightarrow> length (js_trim (query args)) < 2 \<Longrightarrow>
   runNominatimSearch stringify fetch t_get t_set args C
     = (cacheSet t_set (cacheKey stringify args) (Fail ''Query too short'' None) CACHE_TTL_MS C1, [],
        Returns (Fail ''Query too short'' None))"
  by (simp add: runNominatimSearch_def Let_def)

lemma js_trim_Nil: "js_trim [] = []"
  by (simp add: js_trim_def)

lemma runNominatimSearch_fetch:
  "cacheGet t_get (cacheKey stringify args) C = (C1, None) \<Longrightarrow> \<not> length (js_trim (query args)) < 2 \<Longrightarrow>
   runNominatimSearch stringify fetch t_get t_set args C
     = (case fetch args of
          FetchThrows msg \<Rightarrow>
            (cacheSet t_set (cacheKey stringify args) (Fail (''Network error: '' @ msg) None) (2 * 60 * 1000) C1,
             [args], Returns (Fail (''Network error: '' @ msg) None))
        | HttpStatus status \<Rightarrow>
            (cacheSet t_set (cacheKey stringify args) (Fail (''Nominatim '' @ show_nat status) (Some status))
               (2 * 60 * 1000) C1,
             [args], Returns (Fail (''Nominatim '' @ show_nat status) (Some status)))
        | JsonThrows \<Rightarrow> (C1, [args], Throws)
        | JsonValue rows \<Rightarrow>
            (case toFeatureCollection (case rows of Some items \<Rightarrow> items | None \<Rightarrow> []) of
               Throws \<Rightarrow> (C1, [args], Throws)
             | Returns fc \<Rightarrow>
                 (cacheSet t_set (cacheKey stringify args) (Ok fc SrcNominatim) CACHE_TTL_MS C1, [args],
                  Returns (Ok fc SrcNominatim))))"
proof -
  assume g: "cacheGet t_get (cacheKey stringify args) C = (C1, None)"
    and l: "\<not> length (js_trim (query args)) < 2"
  from l have "query args \<noteq> []" by (auto simp: js_trim_Nil)
  then show ?thesis
    using g l
    by (simp add: runNominatimSearch_def Let_def split: nominatim_response.splits outcome.splits)
qed

lemma runNominatimSearch_ok:
  assumes "cache_ok C"
    and "runNominatimSearch stringify fetch t_get t_set args C = (C', reqs, out)"
  shows "cache_ok C'" and "out = Returns res \<Longrightarrow> result_ok res"
proof -
  obtain C1 r where g: "cacheGet t_get (cacheKey stringify args) C = (C1, r)"
    by (cases "cacheGet t_get (cacheKey stringify args) C") auto
  note c1 = cache_ok_cacheGet [OF assms(1) g]
  have "cache_ok C' \<and> (out = Returns res \<longrightarrow> result_ok res)"
  proof (cases r)
    case (Some hit)
    then show ?thesis
      using assms(2) c1 runNominatimSearch_hit [of t_get stringify args C C1 hit fetch t_set] g
      by auto
  next
    case None
    show ?thesis
    proof (cases "length (js_trim (query args)) < 2")
      case True
      then show ?thesis
        using assms(2) c1(1) runNominatimSearch_short [of t_get stringify args C C1 fetch t_set] g None
        by (auto simp: cache_ok_cacheSet)
    next
      case False
      note f = runNominatimSearch_fetch [of t_get stringify args C C1 fetch t_set, OF _ False]
      show ?thesis
      proof (cases "fetch args")
        case (FetchThrows msg)
        then show ?thesis using assms(2) c1(1) f g None by (auto simp: cache_ok_cacheSet)
      next
        case (HttpStatus status)
        then show ?thesis using assms(2) c1(1) f g None by (auto simp: cache_ok_cacheSet)
      next
        case JsonThrows
        then show ?thesis using assms(2) c1(1) f g None by auto
      next
        case (JsonValue rows)
        show ?thesis
        proof (cases "toFeatureCollection (case rows of Some items \<Rightarrow> items | None \<Rightarrow> [])")
          case Throws
          then show ?thesis using assms(2) c1(1) f g None JsonValue by auto
        next
          case (Returns fc)
          then have "result_ok (Ok fc SrcNominatim)" by (rule toFeatureCollection_ok)
          then show ?thesis
            using assms(2) c1(1) f g None JsonValue Returns by (auto simp: cache_ok_cacheSet)
        qed
      qed
    qed
  qed
  then show "cache_ok C'" and "out = Returns res \<Longrightarrow> result_ok res" by auto
qed

lemma foursquare_cache:
  "\<exists>reqs out. runNominatimSearch stringify fetch t_get t_set
        \<lparr>query = place inp, limit = Some 1, countrycodes = None, polygon = None,
         language = None, near = None\<rparr> C
      = (fst (foursquareByPlaceTool stringify fetch t_get t_set api_key placeSearch to_number inp C),
         reqs, out)"
proof -
  let ?args = "\<lparr>query = place inp, limit = Some 1, countrycodes = None, polygon = None,
              language = None, near = None\<rparr>"
  obtain C1 reqs out where r: "runNominatimSearch stringify fetch t_get t_set ?args C = (C1, reqs, out)"
    by (cases "runNominatimSearch stringify fetch t_get t_set ?args C") auto
  show ?thesis
    unfolding foursquareByPlaceTool_def r
    by (auto simp: Let_def
          split: outcome.splits ToolResult.splits list.splits option.splits fsq_result.splits
                 prod.splits)
qed

lemma reachable_ok: "reachable stringify C \<Longrightarrow> cache_ok C"
proof (induction rule: reachable.induct)
  case reachable_empty
  show ?case by (simp add: cache_ok_def)
next
  case (reachable_place C fetch t_get t_set args)
  then show ?case
    using runNominatimSearch_ok(1) [of C stringify fetch t_get t_set args]
    by (cases "runNominatimSearch stringify fetch t_get t_set args C") auto
next
  case (reachable_chained C fetch t_get t_set api_key placeSearch to_number inp)
  then show ?case
    using foursquare_cache [of stringify fetch t_get t_set inp C api_key placeSearch to_number]
      runNominatimSearch_ok(1) [of C stringify fetch t_get t_set]
    by blast
qed

lemma rating_filter_subset: "set (rating_filter to_number m fs) \<subseteq> set fs"
  by (auto simp: rating_filter_def split: option.splits)

text \<open>
  Claim C9. Whatever the place resolver returns successfully from a reachable cache has a
  geometry on every feature, and so has whatever the chained resolver returns
  successfully: its first feature carries the geometry of the resolved place, which is
  present because the centroid of an absent geometry is null and ends the call before
  the feature is built, and the others come from the Foursquare normalizer, which builds
  a Point for every feature it keeps. Both normalizers give every feature a geometry.
\<close>

theorem geometry_never_null:
  assumes "reachable stringify C"
  shows "(runNominatimSearch stringify fetch t_get t_set args C = (C', reqs, Returns (Ok fc src)) \<longrightarrow>
            (\<forall>f \<in> set fc. geometry f \<noteq> None))
       \<and> (foursquareByPlaceTool stringify fetch t_get t_set api_key placeSearch to_number inp C
            = (C'', Returns (Ok fc' src')) \<longrightarrow>
            (\<forall>f \<in> set fc'. geometry f \<noteq> None))
       \<and> (centroid g \<noteq> None \<longrightarrow> g \<noteq> None)
       \<and> (toFeatureCollection items = Returns fs \<longrightarrow> (\<forall>f \<in> set fs. geometry f \<noteq> None))
       \<and> (fsqResultsToGeoJSON results = Returns ps \<longrightarrow> (\<forall>f \<in> set ps. geometry f \<noteq> None))"
proof (intro conjI impI)
  assume "runNominatimSearch stringify fetch t_get t_set args C = (C', reqs, Returns (Ok fc src))"
  then have "result_ok (Ok fc src)"
    using runNominatimSearch_ok(2) [OF reachable_ok [OF assms]] by blast
  then show "\<forall>f \<in> set fc. geometry f \<noteq> None"
    by (simp add: list_all_iff)
next
  assume a: "foursquareByPlaceTool stringify fetch t_get t_set api_key placeSearch to_number inp C
            = (C'', Returns (Ok fc' src'))"
  from foursquare_success [OF a] obtain f0 :: feature and pois results where
    g: "geometry f0 \<noteq> None"
    and p: "fsqResultsToGeoJSON results = Returns pois"
    and fc: "fc' = search_center (place inp) (geometry f0) # rating_filter to_number (minRating inp) pois"
    by blast
  show "\<forall>f \<in> set fc'. geometry f \<noteq> None"
  proof
    fix f assume "f \<in> set fc'"
    then consider "f = search_center (place inp) (geometry f0)"
      | "f \<in> set (rating_filter to_number (minRating inp) pois)"
      using fc by auto
    then show "geometry f \<noteq> None"
    proof cases
      case 1
      then show ?thesis using g by (simp add: search_center_def)
    next
      case 2
      then have "f \<in> set pois" using rating_filter_subset by blast
      then show ?thesis using fsq_feature_facts(1) [OF p] by blast
    qed
  qed
next
  assume "centroid g \<noteq> None"
  then show "g \<noteq> None" by (cases g) auto
next
  assume "toFeatureCollection items = Returns fs"
  then have "result_ok (Ok fs SrcNominatim)" by (rule toFeatureCollection_ok)
  then show "\<forall>f \<in> set fs. geometry f \<noteq> None" by (simp add: list_all_iff)
next
  assume "fsqResultsToGeoJSON results = Returns ps"
  then show "\<forall>f \<in> set ps. geometry f \<noteq> None"
    using fsq_feature_facts(1) by blast
qed

lemma sample_place_run:
  "runNominatimSearch (\<lambda>a. ''k'') (\<lambda>a. JsonValue (Some [Some sample_polygon_row])) 0 0 sample_args []
     = (sample_cache, [sample_args], Returns (Ok [nominatim_feature sample_polygon_row] SrcNominatim))"
  by (simp add: nominatim_eval sample_args_def sample_cache_def)

lemma sample_centroid:
  "centroid (geometry (nominatim_feature sample_polygon_row)) = Some (1, 1)"
  by (simp add: nominatim_feature_def sample_polygon_row_def outer_or_empty_def wrap_sums_def
        edge_step_def rnd_eval)

lemma sample_search:
  "fsqSearch (Some ''key'') (\<lambda>p. Inr sample_fsq_results) opts = FsqOk sample_fsq_results"
  by (simp add: fsqSearch_def Let_def)

lemma sample_chained_run:
  "foursquareByPlaceTool (\<lambda>a. ''k'') (\<lambda>a. JsonValue (Some [Some sample_polygon_row])) 0 0
       (Some ''key'') (\<lambda>p. Inr sample_fsq_results) (\<lambda>v. None) sample_input []
     = (sample_cache, Returns (Ok [sample_center, sample_cafe] SrcFsq))"
proof -
  have a: "\<lparr>query = place sample_input, limit = Some 1, countrycodes = None, polygon = None,
            language = None, near = None\<rparr> = sample_args"
    by (simp add: sample_input_def sample_args_def)
  have c: "search_center (place sample_input) (geometry (nominatim_feature sample_polygon_row))
             = sample_center"
    by (simp add: search_center_def sample_center_def sample_input_def nominatim_feature_def
          sample_polygon_row_def)
  have f: "rating_filter (\<lambda>v. None) (minRating sample_input) [sample_cafe] = [sample_cafe]"
    by (simp add: rating_filter_def sample_input_def)
  show ?thesis
    unfolding foursquareByPlaceTool_def a sample_place_run
    by (simp add: sample_centroid sample_search sample_fsq_features c f
          flip: sample_cafe_def)
qed

theorem geometry_never_null_witness:
  "reachable (\<lambda>a. ''k'') []
   \<and> runNominatimSearch (\<lambda>a. ''k'') (\<lambda>a. JsonValue (Some [Some sample_polygon_row])) 0 0 sample_args []
       = (sample_cache, [sample_args], Returns (Ok [nominatim_feature sample_polygon_row] SrcNominatim))
   \<and> geometry (nominatim_feature sample_polygon_row) \<noteq> None
   \<and> foursquareByPlaceTool (\<lambda>a. ''k'') (\<lambda>a. JsonValue (Some [Some sample_polygon_row])) 0 0
         (Some ''key'') (\<lambda>p. Inr sample_fsq_results) (\<lambda>v. None) sample_input []
       = (sample_cache, Returns (Ok [sample_center, sample_cafe] SrcFsq))
   \<and> geometry sample_center \<noteq> None \<and> geometry sample_cafe \<noteq> None
   \<and> centroid (Some (Polygon [[(0, 0), (3, 0), (0, 3)]])) \<noteq> None
   \<and> toFeatureCollection [Some sample_polygon_row] = Returns [nominatim_feature sample_polygon_row]
   \<and> fsqResultsToGeoJSON sample_fsq_results = Returns [sample_cafe]"
proof -
  have c: "centroid (Some (Polygon [[(0, 0), (3, 0), (0, 3)]])) \<noteq> None"
    by (simp add: outer_or_empty_def wrap_sums_def edge_step_def rnd_eval)
  have t: "toFeatureCollection [Some sample_polygon_row] = Returns [nominatim_feature sample_polygon_row]"
    by simp
  have p: "fsqResultsToGeoJSON sample_fsq_results = Returns [sample_cafe]"
    by (simp add: sample_fsq_features sample_cafe_def)
  show ?thesis
    using geometry_never_null [OF reachable_empty,
        of "\<lambda>a. ''k''" "\<lambda>a. JsonValue (Some [Some sample_polygon_row])" 0 0 sample_args
           sample_cache "[sample_args]" "[nominatim_feature sample_polygon_row]" SrcNominatim
           "Some ''key''" "\<lambda>p. Inr sample_fsq_results" "\<lambda>v. None" sample_input
           sample_cache "[sample_center, sample_cafe]" SrcFsq
           "Some (Polygon [[(0, 0), (3, 0), (0, 3)]])"
           "[Some sample_polygon_row]" "[nominatim_feature sample_polygon_row]"
           sample_fsq_results "[sample_cafe]"]
      sample_place_run sample_chained_run c t p reachable_empty [of "\<lambda>a. ''k''"]
    by simp
qed

section \<open>The search centre and the rating filter\<close>

text \<open>
  Claim C3. When the chained resolver succeeds, the place resolver answered with at least
  one feature, and the first feature of the returned collection consists of the geometry
  of the first feature of that answer, unchanged, and of the properties source
  "nominatim", name (the place asked for) and category "search-center".
\<close>

theorem search_center_first:
  assumes "foursquareByPlaceTool stringify fetch t_get t_set api_key placeSearch to_number inp C
             = (C', Returns (Ok fc src))"
  shows "\<exists>(f0 :: feature) rest nsrc reqs g pois.
           runNominatimSearch stringify fetch t_get t_set
             \<lparr>query = place inp, limit = Some 1, countrycodes = None, polygon = None,
              language = None, near = None\<rparr> C = (C', reqs, Returns (Ok (f0 # rest) nsrc))
         \<and> geometry f0 = Some g
         \<and> fc = \<lparr>geometry = Some g,
                  properties =
                    [(''source'', JStr ''nominatim''),
                     (''name'', JStr (place inp)),
                     (''category'', JStr ''search-center'')]\<rparr> # pois"
proof -
  from foursquare_success [OF assms] obtain f0 :: feature and rest nsrc reqs pois where
    r: "runNominatimSearch stringify fetch t_get t_set
             \<lparr>query = place inp, limit = Some 1, countrycodes = None, polygon = None,
              language = None, near = None\<rparr> C = (C', reqs, Returns (Ok (f0 # rest) nsrc))"
    and g: "geometry f0 \<noteq> None"
    and fc: "fc = search_center (place inp) (geometry f0) # rating_filter to_number (minRating inp) pois"
    by blast
  from g obtain g' where g': "geometry f0 = Some g'" by auto
  show ?thesis
    using r g' fc by (auto simp: search_center_def)
qed

theorem search_center_first_witness:
  "foursquareByPlaceTool (\<lambda>a. ''k'') (\<lambda>a. JsonValue (Some [Some sample_polygon_row])) 0 0
       (Some ''key'') (\<lambda>p. Inr sample_fsq_results) (\<lambda>v. None) sample_input []
     = (sample_cache, Returns (Ok [sample_center, sample_cafe] SrcFsq))
   \<and> geojson sample_polygon_row = Some (Polygon [[(0, 0), (3, 0), (0, 3)]])
   \<and> centroid (Some (Polygon [[(0, 0), (3, 0), (0, 3)]])) = Some (1, 1)
   \<and> geometry (hd [sample_center, sample_cafe]) = Some (Polygon [[(0, 0), (3, 0), (0, 3)]])
   \<and> properties (hd [sample_center, sample_cafe])
        = [(''source'', JStr ''nominatim''), (''name'', JStr ''Gangnam-gu''),
           (''category'', JStr ''search-center'')]"
proof -
  have c: "centroid (Some (Polygon [[(0, 0), (3, 0), (0, 3)]])) = Some (1, 1)"
    by (simp add: outer_or_empty_def wrap_sums_def edge_step_def rnd_eval)
  have g: "geojson sample_polygon_row = Some (Polygon [[(0, 0), (3, 0), (0, 3)]])"
    by (simp add: sample_polygon_row_def)
  have h: "geometry (hd [sample_center, sample_cafe]) = Some (Polygon [[(0, 0), (3, 0), (0, 3)]])"
    "properties (hd [sample_center, sample_cafe])
        = [(''source'', JStr ''nominatim''), (''name'', JStr ''Gangnam-gu''),
           (''category'', JStr ''search-center'')]"
    by (simp_all add: sample_center_def)
  show ?thesis
    using search_center_first [OF sample_chained_run] sample_chained_run c g h
    by (simp del: centroid.simps)
qed

lemma fsqSearch_Ok:
  "fsqSearch api_key placeSearch opts = FsqOk results \<Longrightarrow> \<exists>params. placeSearch params = Inr results"
  unfolding fsqSearch_def Let_def
  by (auto split: if_splits sum.splits)

lemma js_ge_number_or_absent:
  "v = JUndefined \<or> (\<exists>r. v = JNum r) \<Longrightarrow>
   js_ge to_number v m = (case v of JNum r \<Rightarrow> m \<le> r | _ \<Rightarrow> False)"
  by (auto simp: js_ge_def)

text \<open>
  Claim C4. Without a threshold the filter step returns its input. With a threshold, on
  features whose rating is a number or absent, it keeps exactly the features whose
  rating is at least the threshold, in order, and drops those without a rating. In a
  successful chained call the features after the search centre are the normalized rows
  of the provider's answer, all of them without a threshold and those with a sufficient
  rating with one.
\<close>

theorem rating_filter_exact:
  "rating_filter to_number None fs = fs
   \<and> ((\<forall>f \<in> set fs. get_prop (properties f) ''rating'' = JUndefined
                      \<or> (\<exists>r. get_prop (properties f) ''rating'' = JNum r)) \<longrightarrow>
        rating_filter to_number (Some m) fs = filter (rating_at_least m) fs)
   \<and> (foursquareByPlaceTool stringify fetch t_get t_set api_key placeSearch to_number inp C
         = (C', Returns (Ok fc src)) \<longrightarrow>
        (\<exists>params results pois.
           placeSearch params = Inr results
         \<and> fsqResultsToGeoJSON results = Returns pois
         \<and> tl fc = (case minRating inp of
                      None \<Rightarrow> pois
                    | Some m \<Rightarrow> filter (rating_at_least m) pois)))"
proof (intro conjI impI)
  show "rating_filter to_number None fs = fs"
    by (simp add: rating_filter_def)
next
  assume "\<forall>f \<in> set fs. get_prop (properties f) ''rating'' = JUndefined
                      \<or> (\<exists>r. get_prop (properties f) ''rating'' = JNum r)"
  then have "\<forall>f \<in> set fs. js_ge to_number (get_prop (properties f) ''rating'') m = rating_at_least m f"
    by (auto simp: js_ge_def rating_at_least_def)
  then show "rating_filter to_number (Some m) fs = filter (rating_at_least m) fs"
    by (auto simp: rating_filter_def intro: filter_cong)
next
  assume a: "foursquareByPlaceTool stringify fetch t_get t_set api_key placeSearch to_number inp C
         = (C', Returns (Ok fc src))"
  from foursquare_success [OF a] obtain f0 :: feature and c results pois where
    s: "fsqSearch api_key placeSearch
              \<lparr>ll = (snd c, fst c), fsq_query = Some (search_query inp),
               radiusMeters = Some (js_round (radius_km inp * 1000)),
               fsq_limit = Some (result_limit inp)\<rparr> = FsqOk results"
    and p: "fsqResultsToGeoJSON results = Returns pois"
    and fc: "fc = search_center (place inp) (geometry f0) # rating_filter to_number (minRating inp) pois"
    by blast
  from fsqSearch_Ok [OF s] obtain params where ps: "placeSearch params = Inr results" by blast
  have absent: "\<forall>f \<in> set pois. get_prop (properties f) ''rating'' = JUndefined"
    using fsq_feature_facts(3) [OF p] by blast
  have "rating_filter to_number (minRating inp) pois
          = (case minRating inp of None \<Rightarrow> pois | Some m \<Rightarrow> filter (rating_at_least m) pois)"
  proof (cases "minRating inp")
    case None
    then show ?thesis by (simp add: rating_filter_def)
  next
    case (Some m)
    have "\<forall>f \<in> set pois. js_ge to_number (get_prop (properties f) ''rating'') m = rating_at_least m f"
      using absent by (auto simp: js_ge_def rating_at_least_def)
    then show ?thesis
      using Some by (auto simp: rating_filter_def intro: filter_cong)
  qed
  then show "\<exists>params results pois.
           placeSearch params = Inr results
         \<and> fsqResultsToGeoJSON results = Returns pois
         \<and> tl fc = (case minRating inp of
                      None \<Rightarrow> pois
                    | Some m \<Rightarrow> filter (rating_at_least m) pois)"
    using ps p fc by auto
qed

lemma sample_chained_run_rated:
  "foursquareByPlaceTool (\<lambda>a. ''k'') (\<lambda>a. JsonValue (Some [Some sample_polygon_row])) 0 0
       (Some ''key'') (\<lambda>p. Inr sample_fsq_results) (\<lambda>v. None)
       (sample_input\<lparr>minRating := Some 4\<rparr>) []
     = (sample_cache, Returns (Ok [sample_center] SrcFsq))"
proof -
  have a: "\<lparr>query = place (sample_input\<lparr>minRating := Some 4\<rparr>), limit = Some 1,
            countrycodes = None, polygon = None, language = None, near = None\<rparr> = sample_args"
    by (simp add: sample_input_def sample_args_def)
  have c: "search_center (place sample_input)
             (geometry (nominatim_feature sample_polygon_row)) = sample_center"
    by (simp add: search_center_def sample_center_def sample_input_def nominatim_feature_def
          sample_polygon_row_def)
  have f: "rating_filter (\<lambda>v. None) (Some 4) [sample_cafe] = []"
    by (simp add: rating_filter_def sample_cafe_def js_ge_def get_prop_def)
  show ?thesis
    unfolding foursquareByPlaceTool_def a sample_place_run
    by (simp add: sample_centroid sample_search sample_fsq_features c f
          flip: sample_cafe_def)
qed

theorem rating_filter_exact_witness:
  "get_prop (properties (sample_rated 5)) ''rating'' = JNum 5
   \<and> get_prop (properties sample_cafe) ''rating'' = JUndefined
   \<and> get_prop (properties (sample_rated 3)) ''rating'' = JNum 3
   \<and> rating_filter (\<lambda>v. None) (Some 4) [sample_rated 5, sample_cafe, sample_rated 3]
       = [sample_rated 5]
   \<and> rating_filter (\<lambda>v. None) None [sample_rated 5, sample_cafe, sample_rated 3]
       = [sample_rated 5, sample_cafe, sample_rated 3]
   \<and> foursquareByPlaceTool (\<lambda>a. ''k'') (\<lambda>a. JsonValue (Some [Some sample_polygon_row])) 0 0
         (Some ''key'') (\<lambda>p. Inr sample_fsq_results) (\<lambda>v. None) sample_input []
       = (sample_cache, Returns (Ok [sample_center, sample_cafe] SrcFsq))
   \<and> foursquareByPlaceTool (\<lambda>a. ''k'') (\<lambda>a. JsonValue (Some [Some sample_polygon_row])) 0 0
         (Some ''key'') (\<lambda>p. Inr sample_fsq_results) (\<lambda>v. None)
         (sample_input\<lparr>minRating := Some 4\<rparr>) []
       = (sample_cache, Returns (Ok [sample_center] SrcFsq))"
proof -
  have h: "\<forall>f \<in> set [sample_rated 5, sample_cafe, sample_rated 3].
      get_prop (properties f) ''rating'' = JUndefined
      \<or> (\<exists>r. get_prop (properties f) ''rating'' = JNum r)"
    by (simp add: sample_rated_def sample_cafe_def get_prop_def)
  have p: "get_prop (properties (sample_rated 5)) ''rating'' = JNum 5"
    "get_prop (properties sample_cafe) ''rating'' = JUndefined"
    "get_prop (properties (sample_rated 3)) ''rating'' = JNum 3"
    by (simp_all add: sample_rated_def sample_cafe_def get_prop_def)
  have e: "filter (rating_at_least 4) [sample_rated 5, sample_cafe, sample_rated 3]
             = [sample_rated 5]"
    by (simp add: rating_at_least_def sample_rated_def sample_cafe_def get_prop_def)
  show ?thesis
    using rating_filter_exact
        [of "\<lambda>v. None" "[sample_rated 5, sample_cafe, sample_rated 3]" 4
            "\<lambda>a. ''k''" "\<lambda>a. JsonValue (Some [Some sample_polygon_row])" 0 0
            "Some ''key''" "\<lambda>p. Inr sample_fsq_results" sample_input "[]"
            sample_cache "[sample_center, sample_cafe]" SrcFsq]
      h p e sample_chained_run sample_chained_run_rated
    by simp
qed

section \<open>Validation of the query\<close>

lemma map_of_map_set: "map_of (map_set k e m) k = Some e"
proof (cases "map_of m k")
  case None
  then show ?thesis by (simp add: map_set_def map_add_def)
next
  case (Some e0)
  have "map_of m k \<noteq> None \<Longrightarrow>
        map_of (map (\<lambda>(k', e'). if k' = k then (k', e) else (k', e')) m) k = Some e"
    by (induction m) (auto split: if_splits)
  then show ?thesis using Some by (simp add: map_set_def)
qed

lemma cacheGet_hit_keeps:
  "snd (cacheGet now k C) = Some hit \<Longrightarrow> cacheGet now k C = (C, Some hit)"
  by (auto simp: cacheGet_def cache_get_def split: option.splits if_splits)

text \<open>
  Claim C7, as the code has it. A call whose query has fewer than two characters after
  trimming sends no request. If the cache holds no live entry under the key of the
  arguments, the call returns the failure "Query too short" and stores it under that key
  with the default time to live of ten minutes. If the cache holds a live entry under
  that key, the call returns the cached result and leaves the cache as it is.
\<close>

theorem query_too_short:
  assumes "length (js_trim (query args)) < 2"
  shows "fst (snd (runNominatimSearch stringify fetch t_get t_set args C)) = []
       \<and> (snd (cacheGet t_get (cacheKey stringify args) C) = None \<longrightarrow>
            snd (snd (runNominatimSearch stringify fetch t_get t_set args C))
              = Returns (Fail ''Query too short'' None)
          \<and> fst (runNominatimSearch stringify fetch t_get t_set args C)
              = cacheSet t_set (cacheKey stringify args) (Fail ''Query too short'' None) CACHE_TTL_MS
                  (fst (cacheGet t_get (cacheKey stringify args) C))
          \<and> map_of (fst (runNominatimSearch stringify fetch t_get t_set args C)) (cacheKey stringify args)
              = Some \<lparr>cached = Fail ''Query too short'' None, expires = t_set + 10 * 60 * 1000\<rparr>)
       \<and> (\<forall>hit. snd (cacheGet t_get (cacheKey stringify args) C) = Some hit \<longrightarrow>
            runNominatimSearch stringify fetch t_get t_set args C = (C, [], Returns hit))"
proof -
  obtain C1 r where g: "cacheGet t_get (cacheKey stringify args) C = (C1, r)"
    by (cases "cacheGet t_get (cacheKey stringify args) C") auto
  show ?thesis
  proof (cases r)
    case None
    have run: "runNominatimSearch stringify fetch t_get t_set args C
        = (cacheSet t_set (cacheKey stringify args) (Fail ''Query too short'' None) CACHE_TTL_MS C1, [],
           Returns (Fail ''Query too short'' None))"
      using g None assms by (simp add: runNominatimSearch_short)
    have "map_of (cacheSet t_set (cacheKey stringify args) (Fail ''Query too short'' None) CACHE_TTL_MS C1)
            (cacheKey stringify args)
          = Some \<lparr>cached = Fail ''Query too short'' None, expires = t_set + 10 * 60 * 1000\<rparr>"
      by (simp add: cacheSet_def cache_set_def map_of_map_set CACHE_TTL_MS_def)
    then show ?thesis
      using g None by (simp add: run)
  next
    case (Some hit)
    then have "cacheGet t_get (cacheKey stringify args) C = (C, Some hit)"
      using g cacheGet_hit_keeps [of t_get "cacheKey stringify args" C hit] by simp
    then have "runNominatimSearch stringify fetch t_get t_set args C = (C, [], Returns hit)"
      by (rule runNominatimSearch_hit)
    then show ?thesis
      using g Some by simp
  qed
qed

lemma sample_short_first:
  "runNominatimSearch (\<lambda>a. sample_key) (\<lambda>a. HttpStatus 503) 0 0 sample_short_args []
     = ([(sample_key, \<lparr>cached = too_short, expires = 600000\<rparr>)], [], Returns too_short)"
  by (simp add: nominatim_eval sample_short_args_def too_short_def)

lemma sample_short_second:
  "runNominatimSearch (\<lambda>a. sample_key) (\<lambda>a. HttpStatus 503) 1000 1000 sample_short_args
       [(sample_key, \<lparr>cached = too_short, expires = 600000\<rparr>)]
     = ([(sample_key, \<lparr>cached = too_short, expires = 600000\<rparr>)], [], Returns too_short)"
  by (simp add: nominatim_eval sample_short_args_def too_short_def)

theorem query_too_short_witness:
  "canonical sample_short_args
     = \<lparr>key_q = ''a'', key_limit = 5, key_cc = [], key_poly = True, key_lang = [], key_near = None\<rparr>
   \<and> length (js_trim (query sample_short_args)) < 2
   \<and> snd (cacheGet 0 sample_key []) = None
   \<and> runNominatimSearch (\<lambda>a. sample_key) (\<lambda>a. HttpStatus 503) 0 0 sample_short_args []
       = ([(sample_key, \<lparr>cached = too_short, expires = 600000\<rparr>)], [], Returns too_short)
   \<and> snd (cacheGet 1000 sample_key [(sample_key, \<lparr>cached = too_short, expires = 600000\<rparr>)])
       = Some too_short
   \<and> runNominatimSearch (\<lambda>a. sample_key) (\<lambda>a. HttpStatus 503) 1000 1000 sample_short_args
         [(sample_key, \<lparr>cached = too_short, expires = 600000\<rparr>)]
       = ([(sample_key, \<lparr>cached = too_short, expires = 600000\<rparr>)], [], Returns too_short)"
proof -
  have k: "canonical sample_short_args
     = \<lparr>key_q = ''a'', key_limit = 5, key_cc = [], key_poly = True, key_lang = [], key_near = None\<rparr>"
    by (simp add: canonical_def sample_short_args_def js_trim_def js_whitespace_def
          js_toLowerCase_def js_lower_char_def)
  have l: "length (js_trim (query sample_short_args)) < 2"
    by (simp add: sample_short_args_def js_trim_def js_whitespace_def)
  have m: "snd (cacheGet 0 sample_key []) = None"
    by (simp add: cacheGet_def cache_get_def)
  have h: "snd (cacheGet 1000 sample_key [(sample_key, \<lparr>cached = too_short, expires = 600000\<rparr>)])
             = Some too_short"
    by (simp add: cacheGet_def cache_get_def)
  show ?thesis
    using query_too_short [OF l, of "\<lambda>a. sample_key" "\<lambda>a. HttpStatus 503" 0 0 "[]"]
      query_too_short [OF l, of "\<lambda>a. sample_key" "\<lambda>a. HttpStatus 503" 1000 1000
        "[(sample_key, \<lparr>cached = too_short, expires = 600000\<rparr>)]"]
      k l m h sample_short_first sample_short_second
    by simp
qed

theorem query_too_short_counterexample:
  "length (js_trim (query sample_short_args)) < 2
   \<and> fst (runNominatimSearch (\<lambda>a. sample_key) (\<lambda>a. HttpStatus 503) 0 0 sample_short_args [])
       = [(sample_key, \<lparr>cached = too_short, expires = 600000\<rparr>)]
   \<and> map_of (fst (runNominatimSearch (\<lambda>a. sample_key) (\<lambda>a. HttpStatus 503) 1000 1000
                    sample_short_args [(sample_key, \<lparr>cached = too_short, expires = 600000\<rparr>)]))
        sample_key
       = Some \<lparr>cached = too_short, expires = 600000\<rparr>
   \<and> \<lparr>cached = too_short, expires = 600000\<rparr>
       \<noteq> \<lparr>cached = too_short, expires = 1000 + CACHE_TTL_MS\<rparr>"
proof -
  have l: "length (js_trim (query sample_short_args)) < 2"
    by (simp add: sample_short_args_def js_trim_def js_whitespace_def)
  show ?thesis
    using l by (simp add: sample_short_first sample_short_second CACHE_TTL_MS_def)
qed

section \<open>The cache: capacity and order of eviction\<close>

lemma map_of_unstamp: "map_of (unstamp G) k = map_option fst (map_of G k)"
  by (induction G) (auto simp: unstamp_def)

lemma unstamp_delete: "unstamp (st_delete k G) = map_delete k (unstamp G)"
  by (induction G) (auto simp: unstamp_def st_delete_def map_delete_def)

lemma unstamp_evict: "unstamp (st_evict_first G) = evict_first (unstamp G)"
proof (cases G)
  case Nil
  then show ?thesis by (simp add: st_evict_first_def evict_first_def unstamp_def)
next
  case (Cons x xs)
  obtain k e s where x: "x = (k, e, s)" by (cases x) auto
  have "unstamp (st_delete k G) = map_delete k (unstamp G)" by (rule unstamp_delete)
  then show ?thesis
    using Cons x by (simp add: st_evict_first_def evict_first_def unstamp_def)
qed

lemma unstamp_set: "unstamp (st_set n k e G) = map_set k e (unstamp G)"
proof -
  have "unstamp (map (\<lambda>(k', e', s). if k' = k then (k', e, s) else (k', e', s)) G)
          = map (\<lambda>(k', e'). if k' = k then (k', e) else (k', e')) (unstamp G)"
    by (induction G) (auto simp: unstamp_def)
  then show ?thesis
    by (simp add: st_set_def map_set_def map_of_unstamp) (simp add: unstamp_def)
qed

lemma length_unstamp: "length (unstamp G) = length G"
  by (simp add: unstamp_def)

lemma unstamp_apply: "unstamp (st_apply m n x G) = apply_op m x (unstamp G)"
proof (cases x)
  case (OpGet k now)
  then show ?thesis
    by (auto simp: cache_get_def map_of_unstamp unstamp_delete split: option.splits)
next
  case (OpSet k v now ttl)
  then show ?thesis
    by (simp add: cache_set_def unstamp_set unstamp_evict length_unstamp)
qed

lemma unstamp_run: "unstamp (st_run m n ops G) = run_ops m ops (unstamp G)"
  by (induction ops arbitrary: n G) (simp_all add: run_ops_def unstamp_apply)

lemma stamps_delete: "stamps (st_delete k G) = map (\<lambda>(k, e, s). s) (filter (\<lambda>(k', e, s). k' \<noteq> k) G)"
  by (simp add: stamps_def st_delete_def)

lemma st_inv_delete:
  assumes "st_inv m n G"
  shows "st_inv m n (st_delete k G)"
proof -
  have d: "distinct (map fst (st_delete k G))"
    using assms by (simp add: st_inv_def st_delete_def distinct_map_filter)
  have e: "[] \<notin> set (map fst (st_delete k G))"
    using assms by (auto simp: st_inv_def st_delete_def)
  have "sorted_wrt (\<lambda>a b. (case a of (k, e, s) \<Rightarrow> s) < (case b of (k, e, s) \<Rightarrow> s)) G"
    using assms by (simp add: st_inv_def stamps_def sorted_wrt_map)
  then have s: "sorted_wrt (<) (stamps (st_delete k G))"
    by (simp add: stamps_def st_delete_def sorted_wrt_map sorted_wrt_filter)
  have b: "list_all (\<lambda>s. s < n) (stamps (st_delete k G))"
    using assms by (auto simp: st_inv_def stamps_def st_delete_def list_all_iff)
  have "length G \<le> m" using assms by (simp add: st_inv_def)
  then have l: "length (st_delete k G) \<le> m"
    unfolding st_delete_def by (rule le_trans [OF length_filter_le])
  show ?thesis
    using d e s b l by (simp add: st_inv_def)
qed

lemma st_delete_head:
  assumes "distinct (map fst ((k, e, s) # rest))"
  shows "st_delete k ((k, e, s) # rest) = rest"
proof -
  have "k \<notin> fst ` set rest" using assms by simp
  then have "filter (\<lambda>(k', e, s). k' \<noteq> k) rest = rest"
    by (force simp: filter_id_conv)
  then show ?thesis by (simp add: st_delete_def)
qed

lemma st_evict_full:
  assumes "st_inv m n G" and "G \<noteq> []"
  shows "st_evict_first G = tl G"
proof -
  obtain k e s rest where G: "G = (k, e, s) # rest"
    using assms(2) by (cases G) auto
  have "k \<noteq> []" using assms(1) G by (auto simp: st_inv_def)
  moreover have "st_delete k G = rest"
    using assms(1) G st_delete_head [of k e s rest] by (simp add: st_inv_def)
  ultimately show ?thesis
    using G by (simp add: st_evict_first_def)
qed

lemma st_inv_tl:
  assumes "st_inv m n G" and "G \<noteq> []"
  shows "st_inv m n (tl G)" and "length (tl G) < length G"
proof -
  obtain x rest where G: "G = x # rest" using assms(2) by (cases G) auto
  show "st_inv m n (tl G)"
    using assms(1) G by (auto simp: st_inv_def stamps_def)
  show "length (tl G) < length G" using G by simp
qed

lemma st_inv_Suc: "st_inv m n G \<Longrightarrow> st_inv m (Suc n) G"
  by (auto simp: st_inv_def list_all_iff)

lemma st_inv_set:
  assumes "st_inv m n G" and "k \<noteq> []" and "length G < m"
  shows "st_inv m (Suc n) (st_set n k e G)"
proof (cases "map_of G k")
  case None
  then have new: "k \<notin> fst ` set G" by (simp add: map_of_eq_None_iff)
  have "sorted_wrt (<) (stamps G @ [n])"
    using assms(1) by (auto simp: st_inv_def sorted_wrt_append list_all_iff)
  then show ?thesis
    using assms None new by (auto simp: st_inv_def st_set_def stamps_def list_all_iff)
next
  case (Some a)
  let ?f = "\<lambda>(k', e', s). if k' = k then (k', e, s) else (k', e', s)"
  have k: "map fst (map ?f G) = map fst G" by (induction G) auto
  have s: "stamps (map ?f G) = stamps G" by (induction G) (auto simp: stamps_def)
  have eq: "st_set n k e G = map ?f G" using Some by (simp add: st_set_def)
  have "st_inv m n (map ?f G)"
    using assms(1) unfolding st_inv_def k s by simp
  then show ?thesis
    unfolding eq by (rule st_inv_Suc)
qed

lemma st_inv_apply:
  assumes "0 < m" and "op_key x \<noteq> []" and "st_inv m n G"
  shows "st_inv m (Suc n) (st_apply m n x G)"
proof (cases x)
  case (OpGet k now)
  then show ?thesis
    using assms(3) by (auto simp: st_inv_delete st_inv_Suc split: option.splits)
next
  case (OpSet k v now ttl)
  then have k: "k \<noteq> []" using assms(2) by simp
  show ?thesis
  proof (cases "m \<le> length G")
    case True
    then have ne: "G \<noteq> []" using assms(1) by auto
    have len: "length G = m" using True assms(3) by (simp add: st_inv_def)
    have "st_inv m n (tl G)" "length (tl G) < m"
      using st_inv_tl [OF assms(3) ne] len by simp_all
    then have "st_inv m (Suc n) (st_set n k \<lparr>cached = v, expires = now + ttl\<rparr> (tl G))"
      using k by (simp add: st_inv_set)
    then show ?thesis
      using OpSet True st_evict_full [OF assms(3) ne] by simp
  next
    case False
    then have "length G < m" by simp
    then have "st_inv m (Suc n) (st_set n k \<lparr>cached = v, expires = now + ttl\<rparr> G)"
      using assms(3) k by (simp add: st_inv_set)
    then show ?thesis using OpSet False by simp
  qed
qed

lemma st_inv_run:
  assumes "0 < m" and "\<forall>x \<in> set ops. op_key x \<noteq> []" and "st_inv m n G"
  shows "st_inv m (n + length ops) (st_run m n ops G)"
  using assms(2,3)
proof (induction ops arbitrary: n G)
  case Nil
  then show ?case by simp
next
  case (Cons x ops)
  have "st_inv m (Suc n) (st_apply m n x G)"
    using assms(1) Cons.prems by (simp add: st_inv_apply)
  then have "st_inv m (Suc n + length ops) (st_run m (Suc n) ops (st_apply m n x G))"
    using Cons.prems(1) by (intro Cons.IH) simp_all
  then show ?case by simp
qed

lemma st_inv_empty: "st_inv m 0 []"
  by (simp add: st_inv_def stamps_def)

lemma run_ops_snoc: "run_ops m (ops @ [x]) C = apply_op m x (run_ops m ops C)"
  by (simp add: run_ops_def)

lemma map_delete_head:
  assumes "k \<notin> fst ` set rest"
  shows "map_delete k ((k, e) # rest) = rest"
proof -
  have "filter (\<lambda>(k', e). k' \<noteq> k) rest = rest"
    using assms by (force simp: filter_id_conv)
  then show ?thesis by (simp add: map_delete_def)
qed

lemma distinct_inserts:
  assumes "0 < m" and "distinct ks" and "[] \<notin> set ks"
  shows "map fst (run_ops m (map (\<lambda>k. OpSet k (v k) (now k) (ttl k)) ks) []) = drop (length ks - m) ks"
  using assms(2,3)
proof (induction ks rule: rev_induct)
  case Nil
  show ?case by (simp add: run_ops_def)
next
  case (snoc k ks)
  let ?C = "run_ops m (map (\<lambda>k. OpSet k (v k) (now k) (ttl k)) ks) []"
  let ?e = "\<lparr>cached = v k, expires = now k + ttl k\<rparr>"
  have keys: "map fst ?C = drop (length ks - m) ks"
    using snoc by simp
  have len: "length ?C = min (length ks) m"
    using arg_cong [OF keys, of length] by simp
  have new: "k \<notin> set ks" using snoc.prems(1) by simp
  have fresh: "\<And>D. map fst D = drop (length ks - m) ks \<or> map fst D = drop (Suc (length ks) - m) ks
                \<Longrightarrow> map_set k ?e D = D @ [(k, ?e)]"
  proof -
    fix D :: "'a cache"
    assume "map fst D = drop (length ks - m) ks \<or> map fst D = drop (Suc (length ks) - m) ks"
    then obtain j where "map fst D = drop j ks" by blast
    then have "set (map fst D) \<subseteq> set ks" by (simp add: set_drop_subset)
    then have "k \<notin> fst ` set D" using new by auto
    then have "map_of D k = None" by (simp add: map_of_eq_None_iff)
    then show "map_set k ?e D = D @ [(k, ?e)]" by (simp add: map_set_def)
  qed
  show ?case
  proof (cases "m \<le> length ks")
    case True
    then have full: "m \<le> length ?C" using len by simp
    then obtain k0 e0 rest where C: "?C = (k0, e0) # rest"
      using assms(1) by (cases ?C) auto
    have dk: "distinct (map fst ?C)" using keys snoc.prems(1) by simp
    have k0: "k0 \<noteq> []"
    proof -
      have "k0 \<in> set (map fst ?C)" using C by simp
      then have "k0 \<in> set ks" unfolding keys by (rule in_set_dropD)
      then show ?thesis using snoc.prems(2) by auto
    qed
    have "k0 \<notin> fst ` set rest" using dk C by simp
    then have ev: "evict_first ?C = rest"
      using C k0 by (simp add: evict_first_def map_delete_head)
    have rk: "map fst rest = drop (Suc (length ks) - m) ks"
    proof -
      have "map fst rest = tl (map fst ?C)" using C by simp
      also have "\<dots> = tl (drop (length ks - m) ks)" by (simp only: keys)
      also have "\<dots> = drop (Suc (length ks - m)) ks" by (simp add: drop_Suc tl_drop)
      also have "Suc (length ks - m) = Suc (length ks) - m" using True by simp
      finally show ?thesis .
    qed
    have "run_ops m (map (\<lambda>k. OpSet k (v k) (now k) (ttl k)) (ks @ [k])) []
            = map_set k ?e rest"
      using full ev by (simp add: run_ops_snoc cache_set_def)
    also have "\<dots> = rest @ [(k, ?e)]" using fresh rk by blast
    finally show ?thesis
      using rk True assms(1) by simp
  next
    case False
    then have small: "\<not> m \<le> length ?C" using len by simp
    have k0: "map fst ?C = ks" using keys False by simp
    have "run_ops m (map (\<lambda>k. OpSet k (v k) (now k) (ttl k)) (ks @ [k])) []
            = map_set k ?e ?C"
      using small by (simp add: run_ops_snoc cache_set_def)
    also have "\<dots> = ?C @ [(k, ?e)]" using fresh keys by blast
    finally show ?thesis
      using k0 False by simp
  qed
qed

text \<open>
  Claim C6. Starting from the empty cache, after any sequence of gets and sets with
  non-empty keys the cache holds at most its capacity. The entries stand in the order in
  which their keys were inserted (the stamps of the instrumented run, which is the same
  run, increase strictly). A set on a cache at capacity removes exactly the first entry,
  whose key was inserted before every other key present, whether or not it was read or
  overwritten since; so after inserting distinct keys only the last ones, as many as the
  capacity, remain. The capacities are 300 for the place resolver's cache and 500 for
  the geocode cache, whose keys are never empty.
\<close>

theorem cache_capacity_and_eviction:
  assumes "0 < cache_max" and "\<forall>x \<in> set ops. op_key x \<noteq> []"
  shows "length (run_ops cache_max ops []) \<le> cache_max
       \<and> unstamp (st_run cache_max 0 ops []) = run_ops cache_max ops []
       \<and> sorted_wrt (<) (stamps (st_run cache_max 0 ops []))
       \<and> (length (run_ops cache_max ops []) = cache_max \<longrightarrow>
            cache_set cache_max now k v ttl (run_ops cache_max ops [])
              = map_set k \<lparr>cached = v, expires = now + ttl\<rparr> (tl (run_ops cache_max ops []))
          \<and> st_apply cache_max (length ops) (OpSet k v now ttl) (st_run cache_max 0 ops [])
              = st_set (length ops) k \<lparr>cached = v, expires = now + ttl\<rparr>
                  (tl (st_run cache_max 0 ops []))
          \<and> (\<forall>s \<in> set (stamps (tl (st_run cache_max 0 ops []))).
                hd (stamps (st_run cache_max 0 ops [])) < s))
       \<and> (distinct ks \<and> [] \<notin> set ks \<longrightarrow>
            map fst (run_ops cache_max (map (\<lambda>k. OpSet k (val k) (tm k) (life k)) ks) [])
              = drop (length ks - cache_max) ks)
       \<and> cacheSet t1 k1 v1 ttl1 C1 = cache_set 300 t1 k1 v1 ttl1 C1
       \<and> geocode_cacheSet t2 k2 v2 ttl2 C2 = cache_set 500 t2 k2 v2 ttl2 C2
       \<and> geocode_key fixed3 addr bias \<noteq> []"
proof -
  let ?G = "st_run cache_max 0 ops []"
  have inv: "st_inv cache_max (0 + length ops) ?G"
    using assms st_inv_empty by (rule st_inv_run)
  have "unstamp ([] :: 'a stamped) = []" by (simp add: unstamp_def)
  then have un: "unstamp ?G = run_ops cache_max ops []"
    by (simp add: unstamp_run)
  have len: "length (run_ops cache_max ops []) \<le> cache_max"
    using inv by (simp add: st_inv_def length_unstamp flip: un)
  have srt: "sorted_wrt (<) (stamps ?G)"
    using inv by (simp add: st_inv_def)
  have full: "length (run_ops cache_max ops []) = cache_max \<longrightarrow>
            cache_set cache_max now k v ttl (run_ops cache_max ops [])
              = map_set k \<lparr>cached = v, expires = now + ttl\<rparr> (tl (run_ops cache_max ops []))
          \<and> st_apply cache_max (length ops) (OpSet k v now ttl) ?G
              = st_set (length ops) k \<lparr>cached = v, expires = now + ttl\<rparr> (tl ?G)
          \<and> (\<forall>s \<in> set (stamps (tl ?G)). hd (stamps ?G) < s)"
  proof
    assume "length (run_ops cache_max ops []) = cache_max"
    then have lg: "length ?G = cache_max" by (simp add: length_unstamp flip: un)
    then have ne: "?G \<noteq> []" using assms(1) by auto
    have ev: "st_evict_first ?G = tl ?G" using inv ne by (rule st_evict_full)
    have st: "st_apply cache_max (length ops) (OpSet k v now ttl) ?G
              = st_set (length ops) k \<lparr>cached = v, expires = now + ttl\<rparr> (tl ?G)"
      using lg ev by simp
    have "unstamp (st_evict_first ?G) = evict_first (unstamp ?G)" by (rule unstamp_evict)
    then have "evict_first (run_ops cache_max ops []) = tl (run_ops cache_max ops [])"
      unfolding ev un [symmetric] by (simp add: unstamp_def map_tl)
    then have pl: "cache_set cache_max now k v ttl (run_ops cache_max ops [])
              = map_set k \<lparr>cached = v, expires = now + ttl\<rparr> (tl (run_ops cache_max ops []))"
      using \<open>length (run_ops cache_max ops []) = cache_max\<close> by (simp add: cache_set_def)
    obtain x rest where G: "?G = x # rest" using ne by (cases ?G) auto
    have "\<forall>s \<in> set (stamps (tl ?G)). hd (stamps ?G) < s"
      using srt unfolding G by (auto simp: stamps_def)
    then show "cache_set cache_max now k v ttl (run_ops cache_max ops [])
              = map_set k \<lparr>cached = v, expires = now + ttl\<rparr> (tl (run_ops cache_max ops []))
          \<and> st_apply cache_max (length ops) (OpSet k v now ttl) ?G
              = st_set (length ops) k \<lparr>cached = v, expires = now + ttl\<rparr> (tl ?G)
          \<and> (\<forall>s \<in> set (stamps (tl ?G)). hd (stamps ?G) < s)"
      using pl st by blast
  qed
  have law: "distinct ks \<and> [] \<notin> set ks \<longrightarrow>
            map fst (run_ops cache_max (map (\<lambda>k. OpSet k (val k) (tm k) (life k)) ks) [])
              = drop (length ks - cache_max) ks"
    using assms(1) by (auto intro: distinct_inserts)
  have c1: "cacheSet t1 k1 v1 ttl1 C1 = cache_set 300 t1 k1 v1 ttl1 C1"
    by (simp add: cacheSet_def CACHE_MAX_def)
  have c2: "geocode_cacheSet t2 k2 v2 ttl2 C2 = cache_set 500 t2 k2 v2 ttl2 C2"
    by (simp add: geocode_cacheSet_def geocode_CACHE_MAX_def)
  have c3: "geocode_key fixed3 addr bias \<noteq> []"
    by (simp add: geocode_key_def)
  show ?thesis
    using len un srt full law c1 c2 c3 by blast
qed

lemmas cache_eval =
  run_ops_def cache_set_def cache_get_def evict_first_def map_set_def map_delete_def
  st_set_def st_delete_def st_evict_first_def stamps_def

lemma sample_ops_run:
  "run_ops 2 sample_ops []
     = [(''a'', \<lparr>cached = 1, expires = 100\<rparr>), (''b'', \<lparr>cached = 2, expires = 110\<rparr>)]"
  by (simp add: sample_ops_def cache_eval)

lemma sample_ops_stamped:
  "st_run 2 0 sample_ops []
     = [(''a'', \<lparr>cached = 1, expires = 100\<rparr>, 0), (''b'', \<lparr>cached = 2, expires = 110\<rparr>, 1)]"
  by (simp add: sample_ops_def cache_eval numeral_2_eq_2)

theorem cache_capacity_and_eviction_witness:
  "0 < (2 :: nat)
   \<and> op_key (OpSet ''a'' (1 :: nat) 0 100) \<noteq> []
   \<and> op_key (OpSet ''b'' (2 :: nat) 10 100) \<noteq> []
   \<and> op_key (OpGet ''a'' 20 :: nat cache_op) \<noteq> []
   \<and> run_ops 2 sample_ops []
       = [(''a'', \<lparr>cached = 1, expires = 100\<rparr>), (''b'', \<lparr>cached = 2, expires = 110\<rparr>)]
   \<and> length (run_ops 2 sample_ops []) = 2
   \<and> cache_set 2 30 ''c'' 3 100 (run_ops 2 sample_ops [])
       = [(''b'', \<lparr>cached = 2, expires = 110\<rparr>), (''c'', \<lparr>cached = 3, expires = 130\<rparr>)]
   \<and> stamps (st_run 2 0 sample_ops []) = [0, 1]
   \<and> distinct [''a'', ''b'', ''c''] \<and> [] \<notin> set [''a'', ''b'', ''c'']
   \<and> map fst (run_ops 2 (map (\<lambda>k. OpSet k (0 :: nat) 0 100) [''a'', ''b'', ''c'']) [])
       = [''b'', ''c'']"
proof -
  have p: "0 < (2 :: nat)" by simp
  have h: "\<forall>x \<in> set sample_ops. op_key x \<noteq> []"
    by (simp add: sample_ops_def)
  have d: "distinct [''a'', ''b'', ''c''] \<and> [] \<notin> set [''a'', ''b'', ''c'']"
    by simp
  have r: "run_ops 2 sample_ops []
       = [(''a'', \<lparr>cached = 1, expires = 100\<rparr>), (''b'', \<lparr>cached = 2, expires = 110\<rparr>)]"
    by (rule sample_ops_run)
  have c1: "length (run_ops 2 sample_ops []) = 2"
    by (simp add: r)
  have c2: "cache_set 2 30 ''c'' 3 100 (run_ops 2 sample_ops [])
       = [(''b'', \<lparr>cached = 2, expires = 110\<rparr>), (''c'', \<lparr>cached = 3 :: nat, expires = 130\<rparr>)]"
    unfolding r by (simp add: cache_set_def evict_first_def map_set_def map_delete_def)
  have c3: "stamps (st_run 2 0 sample_ops []) = [0, 1]"
    by (simp add: sample_ops_stamped stamps_def)
  have c4: "map fst (run_ops 2 (map (\<lambda>k. OpSet k (0 :: nat) 0 100) [''a'', ''b'', ''c'']) [])
       = [''b'', ''c'']"
    by (simp add: cache_eval)
  show ?thesis
    using cache_capacity_and_eviction [OF p h, of 30 "''c''" 3 100 "[''a'', ''b'', ''c'']"
        "\<lambda>k. 0" "\<lambda>k. 0" "\<lambda>k. 100" 0 "''k''" too_short 0 "[]" 0 "''k''" "(0, 0)" 0 "[]"
        "\<lambda>x. ''1.000''" "''1 main st''" "Some (1, 1)"]
      r c1 c2 c3 c4
    by simp
qed

section \<open>The pause of the fallback geocoder\<close>

lemmas ta_eval =
  asNumber_def item_address_def geocodeAddressWithCache_def geocode_key_def geocode_cacheGet_def
  geocode_cacheSet_def cache_get_def cache_set_def map_set_def sleep_def js_trim_def
  js_whitespace_def js_toLowerCase_def js_lower_char_def Let_def

text \<open>
  Claim C8, evaluated. An item without coordinates whose address is in the geocode cache
  is answered from the cache, and the loop still pauses 1100 ms after it. Two items
  without coordinates whose addresses are not cached and find no match cause two
  requests with no pause between them or after them.
\<close>

theorem fallback_pause_trace:
  "ta_loop (\<lambda>t. None) (\<lambda>x. ''1.000'') (\<lambda>a b. GeoRows None) 50 (1, 1)
       [sample_item ''1 main st''] (sample_state sample_geocache)
     = Returns \<lparr>features = [poiFeature (sample_item ''1 main st'') 2 1], geocodeCount = 1,
                geocodeCache = sample_geocache, clock = 1100, events = [Sleep 1100]\<rparr>
   \<and> ta_loop (\<lambda>t. None) (\<lambda>x. ''1.000'') (\<lambda>a b. GeoRows None) 50 (1, 1)
       [sample_item ''1 main st'', sample_item ''2 side rd''] (sample_state [])
     = Returns \<lparr>features = [], geocodeCount = 0, geocodeCache = [], clock = 100,
                events = [Fetch ''1 main st'', Fetch ''2 side rd'']\<rparr>"
  by (simp add: ta_eval sample_item_def sample_state_def sample_geocache_def)

end
